theory Spec2Isabelle
  imports Main
begin

section \<open>Python strings\<close>

text \<open>
  A Python \<open>str\<close> is modelled as a \<open>string\<close>, a list of 8-bit characters read as the
  code points U+0000 to U+00FF. Every string method below follows CPython on that range.
\<close>

definition startswith :: "string \<Rightarrow> string \<Rightarrow> bool" where
  "startswith s p = (take (length p) s = p)"

definition endswith :: "string \<Rightarrow> string \<Rightarrow> bool" where
  "endswith s e = (length e \<le> length s \<and> drop (length s - length e) s = e)"

text \<open>\<open>str.isspace\<close> on one character: the Unicode whitespace below U+0100.\<close>

definition py_isspace :: "char \<Rightarrow> bool" where
  "py_isspace c =
     (let n = (of_char c :: nat)
      in (9 \<le> n \<and> n \<le> 13) \<or> (28 \<le> n \<and> n \<le> 32) \<or> n = 133 \<or> n = 160)"

definition lstrip_where :: "(char \<Rightarrow> bool) \<Rightarrow> string \<Rightarrow> string" where
  "lstrip_where P s = dropWhile P s"

definition rstrip_where :: "(char \<Rightarrow> bool) \<Rightarrow> string \<Rightarrow> string" where
  "rstrip_where P s = rev (dropWhile P (rev s))"

text \<open>\<open>s.strip()\<close> with no argument removes leading and trailing whitespace.\<close>

definition py_strip :: "string \<Rightarrow> string" where
  "py_strip s = rstrip_where py_isspace (lstrip_where py_isspace s)"

text \<open>
  \<open>s.split(sep)\<close> for a separator of one character: the pieces between the separators,
  empty pieces kept, so the result always has at least one element.
\<close>

fun py_split :: "char \<Rightarrow> string \<Rightarrow> string list" where
  "py_split sep [] = [[]]"
| "py_split sep (c # cs) =
     (if c = sep then [] # py_split sep cs
      else (case py_split sep cs of
              [] \<Rightarrow> [[c]]
            | p # ps \<Rightarrow> (c # p) # ps))"

text \<open>\<open>sep.join(parts)\<close> for a separator of one character.\<close>

fun py_join :: "char \<Rightarrow> string list \<Rightarrow> string" where
  "py_join sep [] = []"
| "py_join sep [p] = p"
| "py_join sep (p # q # ps) = p @ sep # py_join sep (q # ps)"

text \<open>\<open>s.lower()\<close>: A to Z and the upper-case letters of Latin-1 move up by 32.\<close>

definition lower_char :: "char \<Rightarrow> char" where
  "lower_char c =
     (let n = (of_char c :: nat)
      in if (65 \<le> n \<and> n \<le> 90) \<or> (192 \<le> n \<and> n \<le> 222 \<and> n \<noteq> 215)
         then char_of (n + 32) else c)"

definition py_lower :: "string \<Rightarrow> string" where
  "py_lower s = map lower_char s"

subsection \<open>Formatting integers\<close>

definition digit_char :: "nat \<Rightarrow> char" where
  "digit_char d = char_of (48 + d)"

fun dec_digits :: "nat \<Rightarrow> string" where
  "dec_digits n =
     (if n < 10 then [digit_char n] else dec_digits (n div 10) @ [digit_char (n mod 10)])"

declare dec_digits.simps [simp del]

text \<open>
  The format spec \<open>03d\<close> of \<open>f"{i:03d}"\<close>: decimal, padded with zeros after the sign to a
  width of at least three characters. Wider numbers are not truncated.
\<close>

definition fmt03d :: "int \<Rightarrow> string" where
  "fmt03d i =
     (if 0 \<le> i
      then (let ds = dec_digits (nat i) in replicate (3 - length ds) CHR ''0'' @ ds)
      else (let ds = dec_digits (nat (- i)) in CHR ''-'' # replicate (2 - length ds) CHR ''0'' @ ds))"

section \<open>urllib.parse\<close>

text \<open>
  \<open>urlparse\<close>, \<open>urlunparse\<close> and \<open>urljoin\<close> of the standard library, after
  \<open>Lib/urllib/parse.py\<close> of CPython 3.11, for \<open>str\<close> arguments and
  \<open>allow_fragments=True\<close>. The parser raises \<open>ValueError\<close> on a network location with
  unbalanced brackets or with a bracketed host that \<open>_check_bracketed_host\<close> rejects; the
  latter check (IPv6 and IPvFuture literals, through the \<open>ipaddress\<close> module) is the
  parameter \<open>bracket_ok\<close> of every function here. \<open>_checknetloc\<close> never raises on code
  points below U+0100 (none of them normalises under NFKC to one of \<open>/?#@:\<close>), so it has
  no counterpart.
\<close>

datatype py_error = ValueError

definition uses_relative :: "string list" where
  "uses_relative = [[], ''ftp'', ''http'', ''gopher'', ''nntp'', ''imap'',
     ''wais'', ''file'', ''https'', ''shttp'', ''mms'',
     ''prospero'', ''rtsp'', ''rtsps'', ''rtspu'', ''sftp'',
     ''svn'', ''svn+ssh'', ''ws'', ''wss'']"

definition uses_netloc :: "string list" where
  "uses_netloc = [[], ''ftp'', ''http'', ''gopher'', ''nntp'', ''telnet'',
     ''imap'', ''wais'', ''file'', ''mms'', ''https'', ''shttp'',
     ''snews'', ''prospero'', ''rtsp'', ''rtsps'', ''rtspu'', ''rsync'',
     ''svn'', ''svn+ssh'', ''sftp'', ''nfs'', ''git'', ''git+ssh'',
     ''ws'', ''wss'']"

definition uses_params :: "string list" where
  "uses_params = [[], ''ftp'', ''hdl'', ''prospero'', ''http'', ''imap'',
     ''https'', ''shttp'', ''rtsp'', ''rtsps'', ''rtspu'', ''sip'',
     ''sips'', ''mms'', ''sftp'', ''tel'']"

definition ascii_alpha :: "char \<Rightarrow> bool" where
  "ascii_alpha c =
     (let n = (of_char c :: nat) in (65 \<le> n \<and> n \<le> 90) \<or> (97 \<le> n \<and> n \<le> 122))"

definition ascii_digit :: "char \<Rightarrow> bool" where
  "ascii_digit c = (let n = (of_char c :: nat) in 48 \<le> n \<and> n \<le> 57)"

definition scheme_char :: "char \<Rightarrow> bool" where
  "scheme_char c =
     (ascii_alpha c \<or> ascii_digit c \<or> c = CHR ''+'' \<or> c = CHR ''-'' \<or> c = CHR ''.'')"

text \<open>\<open>_WHATWG_C0_CONTROL_OR_SPACE\<close> and \<open>_UNSAFE_URL_BYTES_TO_REMOVE\<close>.\<close>

definition c0_or_space :: "char \<Rightarrow> bool" where
  "c0_or_space c = ((of_char c :: nat) \<le> 32)"

definition unsafe_url_byte :: "char \<Rightarrow> bool" where
  "unsafe_url_byte c = (c = CHR 0x09 \<or> c = CHR 0x0D \<or> c = CHR 0x0A)"

text \<open>\<open>s.find(c)\<close> and \<open>s.rfind(c)\<close> when \<open>c\<close> occurs in \<open>s\<close>; \<open>s.split(c, 1)\<close> likewise.\<close>

definition find_char :: "char \<Rightarrow> string \<Rightarrow> nat" where
  "find_char c s = length (takeWhile (\<lambda>x. x \<noteq> c) s)"

definition rfind_char :: "char \<Rightarrow> string \<Rightarrow> nat" where
  "rfind_char c s = length s - 1 - length (takeWhile (\<lambda>x. x \<noteq> c) (rev s))"

definition split_once :: "char \<Rightarrow> string \<Rightarrow> string \<times> string" where
  "split_once c s = (takeWhile (\<lambda>x. x \<noteq> c) s, drop 1 (dropWhile (\<lambda>x. x \<noteq> c) s))"

text \<open>The scheme test of \<open>urlsplit\<close>: the text before the first colon, when it is a scheme.\<close>

definition split_scheme :: "string \<Rightarrow> string \<Rightarrow> string \<times> string" where
  "split_scheme url scheme =
     (if CHR '':'' \<in> set url
      then (let i = find_char CHR '':'' url
            in if i > 0 \<and> ascii_alpha (hd url) \<and> list_all scheme_char (take i url)
               then (py_lower (take i url), drop (i + 1) url)
               else (scheme, url))
      else (scheme, url))"

text \<open>\<open>_splitnetloc(url, 2)\<close>: the network location ends at the first of \<open>/?#\<close>.\<close>

definition netloc_delim :: "char \<Rightarrow> bool" where
  "netloc_delim c = (c = CHR ''/'' \<or> c = CHR ''?'' \<or> c = CHR ''#'')"

definition splitnetloc :: "string \<Rightarrow> string \<times> string" where
  "splitnetloc url =
     (takeWhile (\<lambda>c. \<not> netloc_delim c) (drop 2 url),
      dropWhile (\<lambda>c. \<not> netloc_delim c) (drop 2 url))"

text \<open>\<open>netloc.partition('[')[2].partition(']')[0]\<close>.\<close>

definition bracketed_host :: "string \<Rightarrow> string" where
  "bracketed_host netloc =
     takeWhile (\<lambda>c. c \<noteq> CHR '']'') (drop 1 (dropWhile (\<lambda>c. c \<noteq> CHR ''['') netloc))"

definition split_fragment_query :: "string \<Rightarrow> string \<times> string \<times> string" where
  "split_fragment_query url =
     (let (url1, fragment) = (if CHR ''#'' \<in> set url then split_once CHR ''#'' url else (url, []));
          (url2, query) = (if CHR ''?'' \<in> set url1 then split_once CHR ''?'' url1 else (url1, []))
      in (url2, query, fragment))"

text \<open>\<open>urlsplit(url, scheme)\<close>: scheme, netloc, path, query, fragment.\<close>

definition urlsplit :: "(string \<Rightarrow> bool) \<Rightarrow> string \<Rightarrow> string
    \<Rightarrow> py_error + (string \<times> string \<times> string \<times> string \<times> string)" where
  "urlsplit bracket_ok url0 scheme0 =
     (let url1 = filter (\<lambda>c. \<not> unsafe_url_byte c) (lstrip_where c0_or_space url0);
          scheme1 = filter (\<lambda>c. \<not> unsafe_url_byte c)
                      (rstrip_where c0_or_space (lstrip_where c0_or_space scheme0));
          (scheme, url2) = split_scheme url1 scheme1
      in if take 2 url2 = ''//''
         then (let (netloc, url3) = splitnetloc url2;
                   lb = (CHR ''['' \<in> set netloc);
                   rb = (CHR '']'' \<in> set netloc)
               in if (lb \<and> \<not> rb) \<or> (rb \<and> \<not> lb) then Inl ValueError
                  else if lb \<and> rb \<and> \<not> bracket_ok (bracketed_host netloc) then Inl ValueError
                  else (let (path, query, fragment) = split_fragment_query url3
                        in Inr (scheme, netloc, path, query, fragment)))
         else (let (path, query, fragment) = split_fragment_query url2
               in Inr (scheme, [], path, query, fragment)))"

record parse_result =
  pr_scheme :: string
  pr_netloc :: string
  pr_path :: string
  pr_params :: string
  pr_query :: string
  pr_fragment :: string

definition splitparams :: "string \<Rightarrow> string \<times> string" where
  "splitparams url =
     (if CHR ''/'' \<in> set url
      then (let r = rfind_char CHR ''/'' url
            in if CHR '';'' \<in> set (drop r url)
               then (let i = r + find_char CHR '';'' (drop r url)
                     in (take i url, drop (i + 1) url))
               else (url, []))
      else (let i = find_char CHR '';'' url in (take i url, drop (i + 1) url)))"

definition urlparse :: "(string \<Rightarrow> bool) \<Rightarrow> string \<Rightarrow> string \<Rightarrow> py_error + parse_result" where
  "urlparse bracket_ok url scheme0 =
     (case urlsplit bracket_ok url scheme0 of
        Inl e \<Rightarrow> Inl e
      | Inr (scheme, netloc, url1, query, fragment) \<Rightarrow>
          (let (path, params) =
                 (if scheme \<in> set uses_params \<and> CHR '';'' \<in> set url1
                  then splitparams url1 else (url1, []))
           in Inr \<lparr>pr_scheme = scheme, pr_netloc = netloc, pr_path = path,
                   pr_params = params, pr_query = query, pr_fragment = fragment\<rparr>))"

definition urlunsplit :: "string \<Rightarrow> string \<Rightarrow> string \<Rightarrow> string \<Rightarrow> string \<Rightarrow> string" where
  "urlunsplit scheme netloc url query fragment =
     (let url1 = (if netloc \<noteq> [] \<or> (scheme \<noteq> [] \<and> scheme \<in> set uses_netloc)
                     \<or> take 2 url = ''//''
                  then ''//'' @ netloc
                         @ (if url \<noteq> [] \<and> take 1 url \<noteq> ''/'' then CHR ''/'' # url else url)
                  else url);
          url2 = (if scheme \<noteq> [] then scheme @ '':'' @ url1 else url1);
          url3 = (if query \<noteq> [] then url2 @ ''?'' @ query else url2)
      in if fragment \<noteq> [] then url3 @ ''#'' @ fragment else url3)"

definition urlunparse :: "parse_result \<Rightarrow> string" where
  "urlunparse p =
     urlunsplit (pr_scheme p) (pr_netloc p)
       (if pr_params p \<noteq> [] then pr_path p @ '';'' @ pr_params p else pr_path p)
       (pr_query p) (pr_fragment p)"

text \<open>
  The path resolution of \<open>urljoin\<close>: \<open>segments[1:-1] = filter(None, segments[1:-1])\<close> drops
  the empty segments strictly between the first and the last; the loop over the segments
  pops on \<open>..\<close> (a pop from the empty list is ignored) and skips \<open>.\<close>.
\<close>

definition filter_middle :: "string list \<Rightarrow> string list" where
  "filter_middle segs =
     (case segs of
        [] \<Rightarrow> []
      | [x] \<Rightarrow> [x]
      | x # rest \<Rightarrow> x # filter (\<lambda>s. s \<noteq> []) (butlast rest) @ [last rest])"

fun resolve_segments :: "string list \<Rightarrow> string list \<Rightarrow> string list" where
  "resolve_segments [] resolved = resolved"
| "resolve_segments (seg # segs) resolved =
     (if seg = ''..'' then resolve_segments segs (butlast resolved)
      else if seg = ''.'' then resolve_segments segs resolved
      else resolve_segments segs (resolved @ [seg]))"

definition join_paths :: "string \<Rightarrow> string \<Rightarrow> string" where
  "join_paths bpath path =
     (let parts = py_split CHR ''/'' bpath;
          base_parts = (if last parts \<noteq> [] then butlast parts else parts);
          segments = (if take 1 path = ''/''
                      then py_split CHR ''/'' path
                      else filter_middle (base_parts @ py_split CHR ''/'' path));
          resolved0 = resolve_segments segments [];
          resolved = (if last segments = ''.'' \<or> last segments = ''..''
                      then resolved0 @ [[]] else resolved0);
          joined = py_join CHR ''/'' resolved
      in if joined = [] then ''/'' else joined)"

definition urljoin :: "(string \<Rightarrow> bool) \<Rightarrow> string \<Rightarrow> string \<Rightarrow> py_error + string" where
  "urljoin bracket_ok base url =
     (if base = [] then Inr url
      else if url = [] then Inr base
      else (case urlparse bracket_ok base [] of
              Inl e \<Rightarrow> Inl e
            | Inr b \<Rightarrow>
               (case urlparse bracket_ok url (pr_scheme b) of
                  Inl e \<Rightarrow> Inl e
                | Inr r \<Rightarrow>
                   if pr_scheme r \<noteq> pr_scheme b \<or> pr_scheme r \<notin> set uses_relative
                   then Inr url
                   else if pr_scheme r \<in> set uses_netloc \<and> pr_netloc r \<noteq> []
                   then Inr (urlunparse r)
                   else (let netloc = (if pr_scheme r \<in> set uses_netloc
                                       then pr_netloc b else pr_netloc r)
                         in if pr_path r = [] \<and> pr_params r = []
                            then Inr (urlunparse (r\<lparr>pr_netloc := netloc, pr_path := pr_path b,
                                        pr_params := pr_params b,
                                        pr_query := (if pr_query r = [] then pr_query b
                                                     else pr_query r)\<rparr>))
                            else Inr (urlunparse (r\<lparr>pr_netloc := netloc,
                                        pr_path := join_paths (pr_path b) (pr_path r)\<rparr>))))))"

section \<open>Regular expressions\<close>

text \<open>
  The three patterns of the source use literals, character classes, alternation, \<open>?\<close>,
  one capturing group, and \<open>*\<close>, \<open>+\<close> and \<open>*?\<close> over a single character class. \<open>rx_match\<close>
  lists, for a pattern and an input, every way the backtracking matcher of \<open>re\<close> can
  match at the start of the input, in the order in which it tries them: the first entry is
  the match that \<open>re\<close> reports. An entry is the unread rest of the input with the text of
  group 1.
\<close>

datatype rx =
    Eps
  | Chr "char \<Rightarrow> bool"
  | Seq rx rx
  | Alt rx rx
  | Opt rx
  | Star "char \<Rightarrow> bool"
  | LazyStar "char \<Rightarrow> bool"
  | Group rx

fun rx_match :: "rx \<Rightarrow> string \<Rightarrow> string option \<Rightarrow> (string \<times> string option) list" where
  "rx_match Eps s g = [(s, g)]"
| "rx_match (Chr P) s g = (case s of [] \<Rightarrow> [] | c # cs \<Rightarrow> if P c then [(cs, g)] else [])"
| "rx_match (Seq a b) s g = concat (map (\<lambda>m. rx_match b (fst m) (snd m)) (rx_match a s g))"
| "rx_match (Alt a b) s g = rx_match a s g @ rx_match b s g"
| "rx_match (Opt a) s g = rx_match a s g @ [(s, g)]"
| "rx_match (Star P) s g = map (\<lambda>k. (drop k s, g)) (rev [0..<Suc (length (takeWhile P s))])"
| "rx_match (LazyStar P) s g = map (\<lambda>k. (drop k s, g)) [0..<Suc (length (takeWhile P s))]"
| "rx_match (Group a) s g =
     map (\<lambda>m. (fst m, Some (take (length s - length (fst m)) s))) (rx_match a s g)"

definition seqs :: "rx list \<Rightarrow> rx" where
  "seqs rs = foldr Seq rs Eps"

text \<open>A literal string; \<open>lit_i\<close> is the literal under \<open>re.IGNORECASE\<close>.\<close>

definition lit :: "string \<Rightarrow> rx" where
  "lit s = seqs (map (\<lambda>c. Chr (\<lambda>x. x = c)) s)"

definition lit_i :: "string \<Rightarrow> rx" where
  "lit_i s = seqs (map (\<lambda>c. Chr (\<lambda>x. lower_char x = lower_char c)) s)"

text \<open>\<open>pattern.search(s)\<close>: the leftmost match, as the matched text and group 1.\<close>

fun rx_search :: "rx \<Rightarrow> string \<Rightarrow> (string \<times> string option) option" where
  "rx_search r [] =
     (case rx_match r [] None of [] \<Rightarrow> None | m # _ \<Rightarrow> Some ([], snd m))"
| "rx_search r (c # cs) =
     (case rx_match r (c # cs) None of
        [] \<Rightarrow> rx_search r cs
      | m # _ \<Rightarrow> Some (take (Suc (length cs) - length (fst m)) (c # cs), snd m))"

text \<open>
  \<open>pattern.finditer(s)\<close>: the matches from left to right, each search starting where the
  match before ended. The patterns of the source match no empty string, so the branch for an
  empty match (which only moves on by one character) is never taken by them.
\<close>

fun rx_finditer :: "rx \<Rightarrow> string \<Rightarrow> (string \<times> string option) list" where
  "rx_finditer r [] = []"
| "rx_finditer r (c # cs) =
     (case rx_match r (c # cs) None of
        [] \<Rightarrow> rx_finditer r cs
      | m # _ \<Rightarrow>
          if length (fst m) < Suc (length cs)
          then (take (Suc (length cs) - length (fst m)) (c # cs), snd m) # rx_finditer r (fst m)
          else rx_finditer r cs)"

text \<open>\<open>\w\<close> and \<open>\s\<close> of a \<open>str\<close> pattern, on the code points below U+0100.\<close>

definition word_char :: "char \<Rightarrow> bool" where
  "word_char c =
     (let n = (of_char c :: nat)
      in ascii_alpha c \<or> ascii_digit c \<or> c = CHR ''_''
         \<or> n = 170 \<or> n = 178 \<or> n = 179 \<or> n = 181 \<or> n = 185 \<or> n = 186
         \<or> (188 \<le> n \<and> n \<le> 190) \<or> (192 \<le> n \<and> n \<le> 214)
         \<or> (216 \<le> n \<and> n \<le> 246) \<or> 248 \<le> n)"

definition ascii_upper :: "char \<Rightarrow> bool" where
  "ascii_upper c = (let n = (of_char c :: nat) in 65 \<le> n \<and> n \<le> 90)"

section \<open>The URL extractor\<close>

definition URL :: string where
  "URL = ''https://riftbound.leagueoflegends.com/en-us/tcg-cards/''"

text \<open>The body of the loop of \<open>parse_srcset\<close>, for one comma-separated part.\<close>

definition srcset_url :: "string \<Rightarrow> string" where
  "srcset_url part =
     py_strip (case py_split CHR '' '' (py_strip part) of [] \<Rightarrow> [] | t # _ \<Rightarrow> t)"

fun srcset_loop :: "string list \<Rightarrow> string list \<Rightarrow> string list" where
  "srcset_loop [] urls = urls"
| "srcset_loop (part # parts) urls =
     (let url = srcset_url part
      in if url \<noteq> [] then srcset_loop parts (urls @ [url]) else srcset_loop parts urls)"

definition parse_srcset :: "string \<Rightarrow> string list" where
  "parse_srcset srcset = srcset_loop (py_split CHR '','' srcset) []"

text \<open>
  The srcset rule in the words of the specification: each comma-separated entry contributes
  its first whitespace-delimited token, and the descriptor after the whitespace is
  discarded.
\<close>

definition first_whitespace_token :: "string \<Rightarrow> string" where
  "first_whitespace_token part = takeWhile (\<lambda>c. \<not> py_isspace c) (dropWhile py_isspace part)"

definition srcset_first_tokens :: "string \<Rightarrow> string list" where
  "srcset_first_tokens srcset =
     filter (\<lambda>u. u \<noteq> []) (map first_whitespace_token (py_split CHR '','' srcset))"

text \<open>What the loop body computes, said without \<open>split\<close>: the text before the first space.\<close>

definition first_space_token :: "string \<Rightarrow> string" where
  "first_space_token part = py_strip (takeWhile (\<lambda>c. c \<noteq> CHR '' '') (py_strip part))"

text \<open>
  The parsed document. \<open>BeautifulSoup(html, "html.parser")\<close> is library code: the extractor
  takes its result, the tags of the document in document order, each with its name and its
  attributes, beside the raw text. \<open>soup.find_all("img")\<close> selects by name and
  \<open>soup.find_all(style=True)\<close> the tags that have a \<open>style\<close> attribute; \<open>tag.get(attr)\<close>
  is the attribute's value or \<open>None\<close>.
\<close>

record tag =
  tag_name :: string
  tag_attrs :: "(string \<times> string) list"

definition tag_get :: "tag \<Rightarrow> string \<Rightarrow> string option" where
  "tag_get t attr = map_of (tag_attrs t) attr"

definition find_all :: "string \<Rightarrow> tag list \<Rightarrow> tag list" where
  "find_all name soup = filter (\<lambda>t. tag_name t = name) soup"

definition find_all_style :: "tag list \<Rightarrow> tag list" where
  "find_all_style soup = filter (\<lambda>t. tag_get t ''style'' \<noteq> None) soup"

text \<open>\<open>re.compile(r'url\((?:"|\')?(.*?)(?:"|\')?\)')\<close>\<close>

definition style_url_re :: rx where
  "style_url_re =
     seqs [lit ''url('',
           Opt (Alt (Chr (\<lambda>x. x = CHR 0x22)) (Chr (\<lambda>x. x = CHR 0x27))),
           Group (LazyStar (\<lambda>x. x \<noteq> CHR 0x0A)),
           Opt (Alt (Chr (\<lambda>x. x = CHR 0x22)) (Chr (\<lambda>x. x = CHR 0x27))),
           lit '')'']"

text \<open>
  \<open>https?://[\w.-]*/public/[\w/-]*/riftbound/[\w/-]*/[\w-]*/cards/[\w-]*/(?:full|thumbnail)[^\s'\"]*\.(?:jpg|jpeg|png|webp)\<close>
  with \<open>re.IGNORECASE\<close>.
\<close>

definition cdn_img_pattern :: rx where
  "cdn_img_pattern =
     seqs [lit_i ''http'', Opt (lit_i ''s''), lit_i ''://'',
           Star (\<lambda>x. word_char x \<or> x = CHR ''.'' \<or> x = CHR ''-''),
           lit_i ''/public/'',
           Star (\<lambda>x. word_char x \<or> x = CHR ''/'' \<or> x = CHR ''-''),
           lit_i ''/riftbound/'',
           Star (\<lambda>x. word_char x \<or> x = CHR ''/'' \<or> x = CHR ''-''),
           lit_i ''/'',
           Star (\<lambda>x. word_char x \<or> x = CHR ''-''),
           lit_i ''/cards/'',
           Star (\<lambda>x. word_char x \<or> x = CHR ''-''),
           lit_i ''/'',
           Alt (lit_i ''full'') (lit_i ''thumbnail''),
           Star (\<lambda>x. \<not> py_isspace x \<and> x \<noteq> CHR 0x27 \<and> x \<noteq> CHR 0x22),
           lit_i ''.'',
           Alt (lit_i ''jpg'') (Alt (lit_i ''jpeg'') (Alt (lit_i ''png'') (lit_i ''webp'')))]"

text \<open>The references one tag contributes, in the order in which the source appends them.\<close>

definition attr_value :: "tag \<Rightarrow> string \<Rightarrow> string list" where
  "attr_value t attr =
     (case tag_get t attr of None \<Rightarrow> [] | Some val \<Rightarrow> if val \<noteq> [] then [val] else [])"

definition img_refs :: "tag \<Rightarrow> string list" where
  "img_refs img =
     concat (map (attr_value img) [''src'', ''data-src''])
     @ concat (map (\<lambda>attr. concat (map parse_srcset (attr_value img attr)))
                 [''srcset'', ''data-srcset''])"

definition source_refs :: "tag \<Rightarrow> string list" where
  "source_refs source = concat (map parse_srcset (attr_value source ''srcset''))"

definition style_refs :: "tag \<Rightarrow> string list" where
  "style_refs el =
     (case tag_get el ''style'' of
        None \<Rightarrow> []
      | Some style \<Rightarrow>
          filter (\<lambda>u. u \<noteq> [] \<and> \<not> startswith u ''data:'')
            (map (\<lambda>m. case snd m of None \<Rightarrow> [] | Some u \<Rightarrow> u) (rx_finditer style_url_re style)))"

definition collect_refs :: "tag list \<Rightarrow> string list" where
  "collect_refs soup =
     concat (map img_refs (find_all ''img'' soup))
     @ concat (map source_refs (find_all ''source'' soup))
     @ concat (map style_refs (find_all_style soup))"

text \<open>Apply a function that may raise to each element in turn; the first error ends it.\<close>

fun try_map :: "('a \<Rightarrow> py_error + 'b) \<Rightarrow> 'a list \<Rightarrow> py_error + 'b list" where
  "try_map f [] = Inr []"
| "try_map f (x # xs) =
     (case f x of
        Inl e \<Rightarrow> Inl e
      | Inr y \<Rightarrow> (case try_map f xs of Inl e \<Rightarrow> Inl e | Inr ys \<Rightarrow> Inr (y # ys)))"

fun try_filter :: "('a \<Rightarrow> py_error + bool) \<Rightarrow> 'a list \<Rightarrow> py_error + 'a list" where
  "try_filter f [] = Inr []"
| "try_filter f (x # xs) =
     (case f x of
        Inl e \<Rightarrow> Inl e
      | Inr keep \<Rightarrow>
          (case try_filter f xs of
             Inl e \<Rightarrow> Inl e
           | Inr ys \<Rightarrow> Inr (if keep then x # ys else ys)))"

text \<open>
  The list \<open>urls\<close> of the source before deduplication: every reference joined to the base
  URL, then the matches of the CDN pattern in the raw text.
\<close>

definition collect_urls :: "(string \<Rightarrow> bool) \<Rightarrow> tag list \<Rightarrow> string \<Rightarrow> string
    \<Rightarrow> py_error + string list" where
  "collect_urls bracket_ok soup html base_url =
     (case try_map (urljoin bracket_ok base_url) (collect_refs soup) of
        Inl e \<Rightarrow> Inl e
      | Inr joined \<Rightarrow> Inr (joined @ map fst (rx_finditer cdn_img_pattern html)))"

definition normalize :: "(string \<Rightarrow> bool) \<Rightarrow> string \<Rightarrow> py_error + string" where
  "normalize bracket_ok u =
     (case urlparse bracket_ok u [] of
        Inl e \<Rightarrow> Inl e
      | Inr parsed \<Rightarrow> Inr (urlunparse (parsed\<lparr>pr_query := [], pr_fragment := []\<rparr>)))"

text \<open>The statement \<open>if u.startswith("//"): u = "https:" + u\<close>.\<close>

definition upgrade_protocol_relative :: "string \<Rightarrow> string" where
  "upgrade_protocol_relative u = (if startswith u ''//'' then ''https:'' @ u else u)"

fun dedup_loop :: "(string \<Rightarrow> bool) \<Rightarrow> string list \<Rightarrow> string set \<Rightarrow> string list
    \<Rightarrow> py_error + string list" where
  "dedup_loop bracket_ok [] seen result = Inr result"
| "dedup_loop bracket_ok (u0 # urls) seen result =
     (if u0 = [] then dedup_loop bracket_ok urls seen result
      else (let u = upgrade_protocol_relative u0
            in case normalize bracket_ok u of
                 Inl e \<Rightarrow> Inl e
               | Inr key \<Rightarrow>
                   if key \<notin> seen
                   then dedup_loop bracket_ok urls (insert key seen) (result @ [u])
                   else dedup_loop bracket_ok urls seen result))"


definition image_exts :: "string list" where
  "image_exts = [''.png'', ''.jpg'', ''.jpeg'', ''.webp'', ''.gif'']"

definition has_image_ext :: "(string \<Rightarrow> bool) \<Rightarrow> string \<Rightarrow> py_error + bool" where
  "has_image_ext bracket_ok u =
     (case urlparse bracket_ok u [] of
        Inl e \<Rightarrow> Inl e
      | Inr parsed \<Rightarrow> Inr (list_ex (endswith (py_lower (pr_path parsed))) image_exts))"

definition extract_image_urls :: "(string \<Rightarrow> bool) \<Rightarrow> tag list \<Rightarrow> string \<Rightarrow> string
    \<Rightarrow> py_error + string list" where
  "extract_image_urls bracket_ok soup html base_url =
     (case collect_urls bracket_ok soup html base_url of
        Inl e \<Rightarrow> Inl e
      | Inr urls \<Rightarrow>
          (case dedup_loop bracket_ok urls {} [] of
             Inl e \<Rightarrow> Inl e
           | Inr result \<Rightarrow> try_filter (has_image_ext bracket_ok) result))"

section \<open>File extension and prefix of a URL\<close>

definition file_ext_for_url :: "(string \<Rightarrow> bool) \<Rightarrow> string \<Rightarrow> py_error + string" where
  "file_ext_for_url bracket_ok u =
     (case urlparse bracket_ok u [] of
        Inl e \<Rightarrow> Inl e
      | Inr parsed \<Rightarrow>
          Inr (case find (endswith (py_lower (pr_path parsed))) image_exts of
                 Some ext \<Rightarrow> ext
               | None \<Rightarrow> ''.jpg''))"

text \<open>\<open>re.compile(r"/riftbound/latest/([A-Z]+)/cards/")\<close>\<close>

definition PREFIX_RE :: rx where
  "PREFIX_RE =
     seqs [lit ''/riftbound/latest/'',
           Group (Seq (Chr ascii_upper) (Star ascii_upper)),
           lit ''/cards/'']"

definition detect_prefix :: "(string \<Rightarrow> bool) \<Rightarrow> string \<Rightarrow> py_error + string option" where
  "detect_prefix bracket_ok u =
     (case urlparse bracket_ok u [] of
        Inl e \<Rightarrow> Inl e
      | Inr parsed \<Rightarrow>
          Inr (case rx_search PREFIX_RE (pr_path parsed) of
                 None \<Rightarrow> None
               | Some m \<Rightarrow> snd m))"

section \<open>The network and the file system\<close>

text \<open>
  \<open>requests.head\<close> and \<open>requests.get\<close> either return a response with a status code or
  raise an exception of the \<open>requests.RequestException\<close> family (the documented contract of
  the library for connection errors, timeouts, redirect loops and invalid URLs). The network
  is a pair of functions from the URL to that outcome; the constant headers and the timeouts
  of the source are part of it.
\<close>

type_synonym bytes = string

datatype head_outcome = HeadResponse nat | HeadRequestException

datatype get_outcome = GetResponse nat bytes | GetRequestException

record network =
  http_head :: "string \<Rightarrow> head_outcome"
  http_get :: "string \<Rightarrow> get_outcome"

text \<open>
  A \<open>pathlib.Path\<close> is the list of its components; \<open>p / name\<close> appends one component.
  This is pathlib's join for a name that is a single relative component (not empty,
  not \<open>.\<close>, without a slash).
\<close>

type_synonym path = "string list"

definition pjoin :: "path \<Rightarrow> string \<Rightarrow> path" where
  "pjoin p name = p @ [name]"

text \<open>
  What a run does to the outside world, in order: the HTTP requests it sends and the files
  it writes. \<open>files\<close> is the resulting content of the file system, \<open>dirs\<close> the directories
  created. Creating a directory and writing a file are taken to succeed.
\<close>

datatype event = Head string | Get string | Write path bytes

record world =
  files :: "path \<rightharpoonup> bytes"
  dirs :: "path set"
  trace :: "event list"

definition emit :: "event \<Rightarrow> world \<Rightarrow> world" where
  "emit e w = w\<lparr>trace := trace w @ [e]\<rparr>"

text \<open>\<open>p.mkdir(parents=True, exist_ok=True)\<close>: the directory and all its ancestors.\<close>

definition mkdir_parents :: "path \<Rightarrow> world \<Rightarrow> world" where
  "mkdir_parents p w = w\<lparr>dirs := dirs w \<union> set (map (\<lambda>n. take n p) [0..<Suc (length p)])\<rparr>"

definition write_bytes :: "path \<Rightarrow> bytes \<Rightarrow> world \<Rightarrow> world" where
  "write_bytes p b w = emit (Write p b) (w\<lparr>files := (files w)(p \<mapsto> b)\<rparr>)"

text \<open>
  \<open>Response.raise_for_status()\<close> of requests raises \<open>HTTPError\<close> exactly for the status
  codes 400 to 599.
\<close>

definition raise_for_status :: "nat \<Rightarrow> bool" where
  "raise_for_status status = (400 \<le> status \<and> status < 600)"

text \<open>
  The two statements \<open>r = requests.get(u, ...); r.raise_for_status()\<close> inside the
  \<open>try\<close> blocks of the source: \<open>Some content\<close> when neither raises, \<open>None\<close> when one does
  (both callers catch \<open>Exception\<close>).
\<close>

definition get_checked :: "network \<Rightarrow> string \<Rightarrow> bytes option" where
  "get_checked net u =
     (case http_get net u of
        GetRequestException \<Rightarrow> None
      | GetResponse status content \<Rightarrow> if raise_for_status status then None else Some content)"

section \<open>The existence probe\<close>

definition try_head :: "network \<Rightarrow> string \<Rightarrow> bool" where
  "try_head net url =
     (case http_head net url of
        HeadResponse status \<Rightarrow> status = 200
      | HeadRequestException \<Rightarrow> False)"

section \<open>The downloader\<close>

text \<open>
  The loop variables of \<open>download_images\<close>: the dictionary \<open>counters\<close> and the world. One
  iteration returns the new state and the exception that left the loop, if any: the two
  calls that parse the URL stand outside the \<open>try\<close> block, so their \<open>ValueError\<close> ends
  the whole call, with everything done before it still done.
\<close>

record dl_state =
  counters :: "string \<rightharpoonup> int"
  dl_world :: world

text \<open>\<open>detect_prefix(u) or "misc"\<close>: \<open>None\<close> and the empty string are both false.\<close>

definition prefix_or_misc :: "string option \<Rightarrow> string" where
  "prefix_or_misc detected =
     (case detected of None \<Rightarrow> ''misc'' | Some p \<Rightarrow> if p = [] then ''misc'' else p)"

definition download_one :: "(string \<Rightarrow> bool) \<Rightarrow> network \<Rightarrow> path \<Rightarrow> string \<Rightarrow> dl_state
    \<Rightarrow> dl_state \<times> py_error option" where
  "download_one bracket_ok net out_dir u s =
     (case detect_prefix bracket_ok u of
        Inl e \<Rightarrow> (s, Some e)
      | Inr detected \<Rightarrow>
          (let prefix = prefix_or_misc detected;
               subdir = pjoin out_dir prefix;
               s1 = s\<lparr>dl_world := mkdir_parents subdir (dl_world s)\<rparr>;
               next_idx = (case counters s prefix of None \<Rightarrow> 1 | Some n \<Rightarrow> n)
           in case file_ext_for_url bracket_ok u of
                Inl e \<Rightarrow> (s1, Some e)
              | Inr ext \<Rightarrow>
                  (let dest = pjoin subdir (fmt03d next_idx @ ext);
                       w2 = emit (Get u) (dl_world s1)
                   in case get_checked net u of
                        Some content \<Rightarrow>
                          (\<lparr>counters = (counters s)(prefix \<mapsto> next_idx + 1),
                            dl_world = write_bytes dest content w2\<rparr>, None)
                      | None \<Rightarrow> (s1\<lparr>dl_world := w2\<rparr>, None))))"

fun download_loop :: "(string \<Rightarrow> bool) \<Rightarrow> network \<Rightarrow> path \<Rightarrow> string list \<Rightarrow> dl_state
    \<Rightarrow> dl_state \<times> py_error option" where
  "download_loop bracket_ok net out_dir [] s = (s, None)"
| "download_loop bracket_ok net out_dir (u # urls) s =
     (case download_one bracket_ok net out_dir u s of
        (s', Some e) \<Rightarrow> (s', Some e)
      | (s', None) \<Rightarrow> download_loop bracket_ok net out_dir urls s')"

definition download_images :: "(string \<Rightarrow> bool) \<Rightarrow> network \<Rightarrow> string list \<Rightarrow> path \<Rightarrow> world
    \<Rightarrow> world \<times> py_error option" where
  "download_images bracket_ok net urls out_dir w =
     (case download_loop bracket_ok net out_dir urls
             \<lparr>counters = Map.empty, dl_world = mkdir_parents out_dir w\<rparr> of
        (s, e) \<Rightarrow> (dl_world s, e))"

section \<open>The fallback prober\<close>

text \<open>
  The candidate URL of one code. \<open>base\<close> is the f-string of the source with the prefix
  filled in and the field \<open>{code}\<close> left for \<open>str.format\<close>; for a prefix without braces,
  \<open>base.format(code=code)\<close> replaces that one field. A prefix with \<open>{\<close> or \<open>}\<close> would be
  read by \<open>str.format\<close> as format syntax, which is outside this model: see \<open>plain_prefix\<close>.
\<close>

definition plain_prefix :: "string \<Rightarrow> bool" where
  "plain_prefix p =
     (p \<noteq> [] \<and> p \<noteq> ''.'' \<and> CHR ''/'' \<notin> set p \<and> CHR ''{'' \<notin> set p \<and> CHR ''}'' \<notin> set p)"

definition asset_fname :: "string option \<Rightarrow> string" where
  "asset_fname asset =
     lstrip_where (\<lambda>c. c = CHR ''/'')
       (case asset of
          None \<Rightarrow> ''full-desktop.jpg''
        | Some a \<Rightarrow> if a = [] then ''full-desktop.jpg'' else a)"

definition candidate_url :: "string \<Rightarrow> string option \<Rightarrow> int \<Rightarrow> string" where
  "candidate_url prefix asset i =
     (let code = prefix @ ''-'' @ fmt03d i;
          fname = asset_fname asset
      in ''https://cdn.rgpub.io/public/live/map/riftbound/latest/'' @ prefix @ ''/cards/''
           @ code @ ''/'' @ fname)"

text \<open>The loop variables of the scan of one prefix, with the world.\<close>

record scan_state =
  miss_streak :: int
  idx :: int
  scan_world :: world

text \<open>
  One iteration of \<open>for i in range(start, 2000)\<close>. The first component of the result is
  \<open>True\<close> when the iteration ends in \<open>break\<close>.
\<close>

definition scan_step :: "network \<Rightarrow> path \<Rightarrow> string \<Rightarrow> string option \<Rightarrow> int \<Rightarrow> int
    \<Rightarrow> scan_state \<Rightarrow> bool \<times> scan_state" where
  "scan_step net subdir prefix asset miss_limit i s =
     (let candidate = candidate_url prefix asset i;
          w1 = emit (Head candidate) (scan_world s)
      in if \<not> try_head net candidate
         then (let m = miss_streak s + 1
               in (m \<ge> miss_limit, s\<lparr>miss_streak := m, scan_world := w1\<rparr>))
         else (let dest = pjoin subdir (fmt03d (idx s) @ ''.jpg'');
                   w2 = emit (Get candidate) w1
               in case get_checked net candidate of
                    Some content \<Rightarrow>
                      (False, \<lparr>miss_streak = 0, idx = idx s + 1,
                               scan_world = write_bytes dest content w2\<rparr>)
                  | None \<Rightarrow>
                      (False, \<lparr>miss_streak = 0, idx = idx s, scan_world = w2\<rparr>)))"

fun scan_codes :: "network \<Rightarrow> path \<Rightarrow> string \<Rightarrow> string option \<Rightarrow> int \<Rightarrow> int list
    \<Rightarrow> scan_state \<Rightarrow> scan_state" where
  "scan_codes net subdir prefix asset miss_limit [] s = s"
| "scan_codes net subdir prefix asset miss_limit (i # rest) s =
     (case scan_step net subdir prefix asset miss_limit i s of
        (True, s') \<Rightarrow> s'
      | (False, s') \<Rightarrow> scan_codes net subdir prefix asset miss_limit rest s')"

text \<open>The body of \<open>for prefix in prefixes\<close>; \<open>range(start, 2000)\<close> is \<open>[start..1999]\<close>.\<close>

definition scan_prefix :: "network \<Rightarrow> path \<Rightarrow> int \<Rightarrow> int \<Rightarrow> string option \<Rightarrow> world
    \<Rightarrow> string \<Rightarrow> world" where
  "scan_prefix net out_dir start miss_limit asset w prefix =
     (let subdir = pjoin out_dir prefix;
          w1 = mkdir_parents subdir w
      in scan_world
           (scan_codes net subdir prefix asset miss_limit [start..1999]
              \<lparr>miss_streak = 0, idx = 1, scan_world = w1\<rparr>))"

definition fallback_guess_by_prefixes :: "network \<Rightarrow> path \<Rightarrow> string list \<Rightarrow> int \<Rightarrow> int
    \<Rightarrow> string option \<Rightarrow> world \<Rightarrow> world" where
  "fallback_guess_by_prefixes net out_dir prefixes start miss_limit asset w =
     foldl (scan_prefix net out_dir start miss_limit asset) (mkdir_parents out_dir w) prefixes"

section \<open>Scenarios\<close>

text \<open>
  Concrete inputs on which the theorems below are exercised. No URL in them has a
  bracketed host, so the validator of bracketed hosts is never consulted; \<open>no_bracketed_hosts\<close>
  rejects them all.
\<close>

definition no_bracketed_hosts :: "string \<Rightarrow> bool" where
  "no_bracketed_hosts host = False"

definition empty_world :: world where
  "empty_world = \<lparr>files = Map.empty, dirs = {}, trace = []\<rparr>"

text \<open>The paths a trace wrote, in order, and the paths with the bytes written.\<close>

definition written :: "event list \<Rightarrow> (path \<times> bytes) list" where
  "written evs = concat (map (\<lambda>e. case e of Write p b \<Rightarrow> [(p, b)] | _ \<Rightarrow> []) evs)"

definition written_paths :: "event list \<Rightarrow> path list" where
  "written_paths evs = map fst (written evs)"

text \<open>What a URL contributes to the written contents: its body when the download succeeds.\<close>

definition fetched :: "network \<Rightarrow> string \<Rightarrow> bytes list" where
  "fetched net u = (case get_checked net u of None \<Rightarrow> [] | Some content \<Rightarrow> [content])"



text \<open>
  A CDN on which every probe of the first three codes succeeds, the download of OGS-002
  answers 500, and nothing exists from the fourth code on.
\<close>

definition net_flaky :: network where
  "net_flaky =
     \<lparr>http_head = (\<lambda>u. if u = ''https://cdn.rgpub.io/public/live/map/riftbound/latest/OGS/cards/OGS-001/full-desktop.jpg''
                           \<or> u = ''https://cdn.rgpub.io/public/live/map/riftbound/latest/OGS/cards/OGS-002/full-desktop.jpg''
                           \<or> u = ''https://cdn.rgpub.io/public/live/map/riftbound/latest/OGS/cards/OGS-003/full-desktop.jpg''
                         then HeadResponse 200 else HeadResponse 404),
      http_get = (\<lambda>u. if u = ''https://cdn.rgpub.io/public/live/map/riftbound/latest/OGS/cards/OGS-002/full-desktop.jpg''
                        then GetResponse 500 [] else GetResponse 200 (''image at '' @ u))\<rparr>"

text \<open>A CDN that has the asset \<open>full-desktop.png\<close> of the card OGS-001 only.\<close>

definition net_png :: network where
  "net_png =
     \<lparr>http_head = (\<lambda>u. if u = ''https://cdn.rgpub.io/public/live/map/riftbound/latest/OGS/cards/OGS-001/full-desktop.png''
                         then HeadResponse 200 else HeadResponse 404),
      http_get = (\<lambda>u. if u = ''https://cdn.rgpub.io/public/live/map/riftbound/latest/OGS/cards/OGS-001/full-desktop.png''
                        then GetResponse 200 ''PNG bytes'' else GetResponse 404 [])\<rparr>"

text \<open>A server that answers every GET with 304 and an empty body.\<close>

definition net_304 :: network where
  "net_304 = \<lparr>http_head = (\<lambda>u. HeadResponse 304), http_get = (\<lambda>u. GetResponse 304 [])\<rparr>"

text \<open>A server on which one URL answers 404 and every other URL answers 200.\<close>

definition net_one_missing :: network where
  "net_one_missing =
     \<lparr>http_head = (\<lambda>u. HeadResponse 200),
      http_get = (\<lambda>u. if u = ''https://example.com/img/b.png''
                        then GetResponse 404 ''not found'' else GetResponse 200 (''image at '' @ u))\<rparr>"

text \<open>
  A page with four images: two that differ in the query string only, one with a
  protocol-relative URL and an upper-case extension, and one that is not an image. Its raw
  text has no CDN URL.
\<close>

definition sample_soup :: "tag list" where
  "sample_soup =
     [\<lparr>tag_name = ''img'', tag_attrs = [(''src'', ''/img/card.png?v=1'')]\<rparr>,
      \<lparr>tag_name = ''img'', tag_attrs = [(''src'', ''/img/card.png?v=2'')]\<rparr>,
      \<lparr>tag_name = ''img'', tag_attrs = [(''src'', ''//cdn.example.com/a.JPG'')]\<rparr>,
      \<lparr>tag_name = ''img'', tag_attrs = [(''src'', ''notes.txt'')]\<rparr>]"

definition sample_html :: string where
  "sample_html = ''<img src=/img/card.png?v=1><img src=/img/card.png?v=2><img src=//cdn.example.com/a.JPG><img src=notes.txt>''"



section \<open>Properties of the existence probe\<close>



section \<open>Properties of the fallback prober\<close>

lemma fmt03d_1: "fmt03d 1 = ''001''"
  by code_simp

lemma fmt03d_2: "fmt03d 2 = ''002''"
  by code_simp

lemma upto_1_1999: "[1..1999] = 1 # 2 # 3 # 4 # 5 # 6 # [7..1999]"
  by (simp add: upto_rec1)

text \<open>The three ways one iteration of the scan can go.\<close>

lemma scan_step_miss:
  "\<not> try_head net (candidate_url prefix asset i) \<Longrightarrow>
   scan_step net subdir prefix asset miss_limit i s =
     (miss_streak s + 1 \<ge> miss_limit,
      s\<lparr>miss_streak := miss_streak s + 1,
        scan_world := emit (Head (candidate_url prefix asset i)) (scan_world s)\<rparr>)"
  by (simp add: scan_step_def Let_def)

lemma scan_step_saved:
  "try_head net (candidate_url prefix asset i) \<Longrightarrow>
   get_checked net (candidate_url prefix asset i) = Some content \<Longrightarrow>
   scan_step net subdir prefix asset miss_limit i s =
     (False, \<lparr>miss_streak = 0, idx = idx s + 1,
        scan_world = write_bytes (pjoin subdir (fmt03d (idx s) @ ''.jpg'')) content
          (emit (Get (candidate_url prefix asset i))
             (emit (Head (candidate_url prefix asset i)) (scan_world s)))\<rparr>)"
  by (simp add: scan_step_def Let_def)

lemma scan_step_failed:
  "try_head net (candidate_url prefix asset i) \<Longrightarrow>
   get_checked net (candidate_url prefix asset i) = None \<Longrightarrow>
   scan_step net subdir prefix asset miss_limit i s =
     (False, \<lparr>miss_streak = 0, idx = idx s,
        scan_world = emit (Get (candidate_url prefix asset i))
             (emit (Head (candidate_url prefix asset i)) (scan_world s))\<rparr>)"
  by (simp add: scan_step_def Let_def)

lemma trace_mkdir_parents: "trace (mkdir_parents p w) = trace w"
  by (simp add: mkdir_parents_def)

lemma files_mkdir_parents: "files (mkdir_parents p w) = files w"
  by (simp add: mkdir_parents_def)



lemma candidates_OGS:
  "candidate_url ''OGS'' None 1 = ''https://cdn.rgpub.io/public/live/map/riftbound/latest/OGS/cards/OGS-001/full-desktop.jpg''"
  "candidate_url ''OGS'' None 2 = ''https://cdn.rgpub.io/public/live/map/riftbound/latest/OGS/cards/OGS-002/full-desktop.jpg''"
  "candidate_url ''OGS'' None 3 = ''https://cdn.rgpub.io/public/live/map/riftbound/latest/OGS/cards/OGS-003/full-desktop.jpg''"
  "candidate_url ''OGS'' None 4 = ''https://cdn.rgpub.io/public/live/map/riftbound/latest/OGS/cards/OGS-004/full-desktop.jpg''"
  "candidate_url ''OGS'' None 5 = ''https://cdn.rgpub.io/public/live/map/riftbound/latest/OGS/cards/OGS-005/full-desktop.jpg''"
  "candidate_url ''OGS'' None 6 = ''https://cdn.rgpub.io/public/live/map/riftbound/latest/OGS/cards/OGS-006/full-desktop.jpg''"
  by code_simp+


lemma written_paths_emit_Head [simp]: "written_paths (trace (emit (Head u) w)) = written_paths (trace w)"
  by (simp add: written_paths_def written_def emit_def)

lemma written_paths_emit_Get [simp]: "written_paths (trace (emit (Get u) w)) = written_paths (trace w)"
  by (simp add: written_paths_def written_def emit_def)

lemma written_paths_write_bytes [simp]:
  "written_paths (trace (write_bytes p b w)) = written_paths (trace w) @ [p]"
  by (simp add: written_paths_def written_def emit_def write_bytes_def)

lemma scan_step_written:
  assumes "scan_step net subdir prefix asset lim i s = (b, s')"
  shows "(idx s' = idx s
          \<and> written_paths (trace (scan_world s')) = written_paths (trace (scan_world s)))
       \<or> (idx s' = idx s + 1
          \<and> written_paths (trace (scan_world s')) =
              written_paths (trace (scan_world s)) @ [pjoin subdir (fmt03d (idx s) @ ''.jpg'')])"
  using assms
  by (auto simp: scan_step_def Let_def split: if_splits option.splits)

lemma scan_codes_gap_free:
  "idx s \<le> idx (scan_codes net subdir prefix asset lim codes s)
   \<and> written_paths (trace (scan_world (scan_codes net subdir prefix asset lim codes s))) =
       written_paths (trace (scan_world s))
       @ map (\<lambda>j. pjoin subdir (fmt03d j @ ''.jpg''))
           [idx s..idx (scan_codes net subdir prefix asset lim codes s) - 1]"
proof (induction codes arbitrary: s)
  case Nil
  show ?case by simp
next
  case (Cons i rest)
  obtain b s' where st: "scan_step net subdir prefix asset lim i s = (b, s')"
    by (cases "scan_step net subdir prefix asset lim i s")
  from scan_step_written [OF st]
  have one: "idx s \<le> idx s'
     \<and> written_paths (trace (scan_world s')) =
         written_paths (trace (scan_world s))
         @ map (\<lambda>j. pjoin subdir (fmt03d j @ ''.jpg'')) [idx s..idx s' - 1]"
    by (auto simp: upto_rec1)
  show ?case
  proof (cases b)
    case True
    with st one show ?thesis by simp
  next
    case False
    let ?t = "scan_codes net subdir prefix asset lim rest s'"
    from Cons.IH [of s'] have ih: "idx s' \<le> idx ?t"
      and ihw: "written_paths (trace (scan_world ?t)) =
         written_paths (trace (scan_world s'))
         @ map (\<lambda>j. pjoin subdir (fmt03d j @ ''.jpg'')) [idx s'..idx ?t - 1]"
      by simp_all
    have split: "[idx s..idx ?t - 1] = [idx s..idx s' - 1] @ [idx s'..idx ?t - 1]"
    proof (cases "idx s' = idx ?t")
      case True
      then show ?thesis by simp
    next
      case False
      with ih have "idx s' \<le> idx ?t - 1" by simp
      with one show ?thesis by (intro upto_split1) auto
    qed
    from False st have eq: "scan_codes net subdir prefix asset lim (i # rest) s = ?t"
      by simp
    show ?thesis
      unfolding eq using one ih ihw split by simp
  qed
qed

text \<open>
  C10. In the scan of a prefix, a code whose probe succeeds and whose download then fails
  (an exception of the GET, or \<open>raise_for_status\<close>) sets the miss counter back to zero,
  leaves the save index where it was and writes no file; the next download that succeeds
  is written under that same index; and the files a scan writes are numbered 1, 2, ..., n
  without a gap, whatever the network answers.
\<close>

theorem failed_download_after_hit_keeps_index:
  assumes "plain_prefix prefix"
  shows "(try_head net (candidate_url prefix asset i)
          \<and> get_checked net (candidate_url prefix asset i) = None
          \<longrightarrow> scan_step net subdir prefix asset miss_limit i s =
                (False, \<lparr>miss_streak = 0, idx = idx s,
                         scan_world = emit (Get (candidate_url prefix asset i))
                           (emit (Head (candidate_url prefix asset i)) (scan_world s))\<rparr>))
       \<and> (try_head net (candidate_url prefix asset i)
          \<and> get_checked net (candidate_url prefix asset i) = None
          \<and> try_head net (candidate_url prefix asset j)
          \<and> get_checked net (candidate_url prefix asset j) = Some content
          \<longrightarrow> written (trace (scan_world (snd (scan_step net subdir prefix asset miss_limit j
                  (snd (scan_step net subdir prefix asset miss_limit i s)))))) =
                written (trace (scan_world s)) @ [(pjoin subdir (fmt03d (idx s) @ ''.jpg''), content)])
       \<and> (\<exists>n. written_paths (trace (scan_prefix net out_dir start miss_limit asset w prefix)) =
                written_paths (trace w) @ map (\<lambda>k. out_dir @ [prefix, fmt03d k @ ''.jpg'']) [1..n])"
proof (intro conjI impI)
  assume "try_head net (candidate_url prefix asset i)
          \<and> get_checked net (candidate_url prefix asset i) = None"
  then show "scan_step net subdir prefix asset miss_limit i s =
                (False, \<lparr>miss_streak = 0, idx = idx s,
                         scan_world = emit (Get (candidate_url prefix asset i))
                           (emit (Head (candidate_url prefix asset i)) (scan_world s))\<rparr>)"
    by (simp add: scan_step_failed)
next
  assume "try_head net (candidate_url prefix asset i)
          \<and> get_checked net (candidate_url prefix asset i) = None
          \<and> try_head net (candidate_url prefix asset j)
          \<and> get_checked net (candidate_url prefix asset j) = Some content"
  then show "written (trace (scan_world (snd (scan_step net subdir prefix asset miss_limit j
                  (snd (scan_step net subdir prefix asset miss_limit i s)))))) =
                written (trace (scan_world s)) @ [(pjoin subdir (fmt03d (idx s) @ ''.jpg''), content)]"
    by (simp add: scan_step_failed scan_step_saved written_def emit_def write_bytes_def)
next
  define s0 where "s0 = \<lparr>miss_streak = 0, idx = 1,
      scan_world = mkdir_parents (pjoin out_dir prefix) w\<rparr>"
  define t where "t = scan_codes net (pjoin out_dir prefix) prefix asset miss_limit [start..1999] s0"
  have run: "scan_prefix net out_dir start miss_limit asset w prefix = scan_world t"
    by (simp add: scan_prefix_def Let_def t_def s0_def)
  have "written_paths (trace (scan_world t)) =
       written_paths (trace (scan_world s0))
       @ map (\<lambda>j. pjoin (pjoin out_dir prefix) (fmt03d j @ ''.jpg'')) [idx s0..idx t - 1]"
    unfolding t_def
    using scan_codes_gap_free [of s0 net "pjoin out_dir prefix" prefix asset miss_limit "[start..1999]"]
    by blast
  then have "written_paths (trace (scan_prefix net out_dir start miss_limit asset w prefix)) =
                written_paths (trace w) @ map (\<lambda>k. out_dir @ [prefix, fmt03d k @ ''.jpg'']) [1..idx t - 1]"
    unfolding run by (simp add: s0_def pjoin_def trace_mkdir_parents)
  then show "\<exists>n. written_paths (trace (scan_prefix net out_dir start miss_limit asset w prefix)) =
                written_paths (trace w) @ map (\<lambda>k. out_dir @ [prefix, fmt03d k @ ''.jpg'']) [1..n]"
    by blast
qed

lemma net_flaky_facts:
  "try_head net_flaky (candidate_url ''OGS'' None 1)"
  "try_head net_flaky (candidate_url ''OGS'' None 2)"
  "try_head net_flaky (candidate_url ''OGS'' None 3)"
  "\<not> try_head net_flaky (candidate_url ''OGS'' None 4)"
  "\<not> try_head net_flaky (candidate_url ''OGS'' None 5)"
  "\<not> try_head net_flaky (candidate_url ''OGS'' None 6)"
  "get_checked net_flaky (candidate_url ''OGS'' None 1) = Some (''image at '' @ candidate_url ''OGS'' None 1)"
  "get_checked net_flaky (candidate_url ''OGS'' None 2) = None"
  "get_checked net_flaky (candidate_url ''OGS'' None 3) = Some (''image at '' @ candidate_url ''OGS'' None 3)"
  unfolding candidates_OGS
  by (simp_all add: try_head_def get_checked_def net_flaky_def raise_for_status_def)

lemma net_flaky_run:
  "written (trace (scan_prefix net_flaky [''images''] 1 3 None empty_world ''OGS'')) =
     [([''images'', ''OGS'', ''001.jpg''], ''image at '' @ candidate_url ''OGS'' None 1),
      ([''images'', ''OGS'', ''002.jpg''], ''image at '' @ candidate_url ''OGS'' None 3)]"
  by (simp add: scan_prefix_def upto_1_1999 scan_step_miss scan_step_saved scan_step_failed
        net_flaky_facts fmt03d_1 fmt03d_2
        emit_def write_bytes_def mkdir_parents_def pjoin_def Let_def written_def empty_world_def)

theorem failed_download_after_hit_keeps_index_witness:
  "plain_prefix ''OGS''
   \<and> try_head net_flaky (candidate_url ''OGS'' None 2)
   \<and> get_checked net_flaky (candidate_url ''OGS'' None 2) = None
   \<and> try_head net_flaky (candidate_url ''OGS'' None 3)
   \<and> get_checked net_flaky (candidate_url ''OGS'' None 3) = Some (''image at '' @ candidate_url ''OGS'' None 3)
   \<and> scan_step net_flaky [''images'', ''OGS''] ''OGS'' None 3 2
        \<lparr>miss_streak = 2, idx = 2, scan_world = empty_world\<rparr> =
        (False, \<lparr>miss_streak = 0, idx = 2,
                 scan_world = emit (Get (candidate_url ''OGS'' None 2))
                   (emit (Head (candidate_url ''OGS'' None 2)) empty_world)\<rparr>)
   \<and> written (trace (scan_world (snd (scan_step net_flaky [''images'', ''OGS''] ''OGS'' None 3 3
        (snd (scan_step net_flaky [''images'', ''OGS''] ''OGS'' None 3 2
           \<lparr>miss_streak = 2, idx = 2, scan_world = empty_world\<rparr>)))))) =
       [([''images'', ''OGS'', ''002.jpg''], ''image at '' @ candidate_url ''OGS'' None 3)]
   \<and> written_paths (trace (scan_prefix net_flaky [''images''] 1 3 None empty_world ''OGS'')) =
       [[''images'', ''OGS'', ''001.jpg''], [''images'', ''OGS'', ''002.jpg'']]"
proof -
  let ?s = "\<lparr>miss_streak = 2, idx = 2, scan_world = empty_world\<rparr>"
  have p: "plain_prefix ''OGS''"
    by (simp add: plain_prefix_def)
  note T = failed_download_after_hit_keeps_index
             [OF p, where net = net_flaky and asset = None and i = 2 and j = 3
                and subdir = "[''images'', ''OGS'']" and miss_limit = 3 and s = ?s
                and content = "''image at '' @ candidate_url ''OGS'' None 3"
                and out_dir = "[''images'']" and start = 1 and w = empty_world]
  from T net_flaky_facts
  have a: "scan_step net_flaky [''images'', ''OGS''] ''OGS'' None 3 2 ?s =
        (False, \<lparr>miss_streak = 0, idx = 2,
                 scan_world = emit (Get (candidate_url ''OGS'' None 2))
                   (emit (Head (candidate_url ''OGS'' None 2)) empty_world)\<rparr>)"
    by simp
  from T net_flaky_facts
  have "written (trace (scan_world (snd (scan_step net_flaky [''images'', ''OGS''] ''OGS'' None 3 3
        (snd (scan_step net_flaky [''images'', ''OGS''] ''OGS'' None 3 2 ?s)))))) =
       written (trace (scan_world ?s))
       @ [(pjoin [''images'', ''OGS''] (fmt03d (idx ?s) @ ''.jpg''),
           ''image at '' @ candidate_url ''OGS'' None 3)]"
    by blast
  then have b: "written (trace (scan_world (snd (scan_step net_flaky [''images'', ''OGS''] ''OGS'' None 3 3
        (snd (scan_step net_flaky [''images'', ''OGS''] ''OGS'' None 3 2 ?s)))))) =
       [([''images'', ''OGS'', ''002.jpg''], ''image at '' @ candidate_url ''OGS'' None 3)]"
    by (simp add: written_def empty_world_def pjoin_def fmt03d_2)
  have c: "written_paths (trace (scan_prefix net_flaky [''images''] 1 3 None empty_world ''OGS'')) =
       [[''images'', ''OGS'', ''001.jpg''], [''images'', ''OGS'', ''002.jpg'']]"
    unfolding written_paths_def net_flaky_run by simp
  from p net_flaky_facts a b c show ?thesis
    by blast
qed

lemma candidate_png:
  "candidate_url ''OGS'' (Some ''full-desktop.png'') 1 = ''https://cdn.rgpub.io/public/live/map/riftbound/latest/OGS/cards/OGS-001/full-desktop.png''"
  "candidate_url ''OGS'' (Some ''full-desktop.png'') 2 = ''https://cdn.rgpub.io/public/live/map/riftbound/latest/OGS/cards/OGS-002/full-desktop.png''"
  "candidate_url ''OGS'' (Some ''full-desktop.png'') 3 = ''https://cdn.rgpub.io/public/live/map/riftbound/latest/OGS/cards/OGS-003/full-desktop.png''"
  "candidate_url ''OGS'' (Some ''full-desktop.png'') 4 = ''https://cdn.rgpub.io/public/live/map/riftbound/latest/OGS/cards/OGS-004/full-desktop.png''"
  by code_simp+

lemma net_png_facts:
  "try_head net_png (candidate_url ''OGS'' (Some ''full-desktop.png'') 1)"
  "\<not> try_head net_png (candidate_url ''OGS'' (Some ''full-desktop.png'') 2)"
  "\<not> try_head net_png (candidate_url ''OGS'' (Some ''full-desktop.png'') 3)"
  "\<not> try_head net_png (candidate_url ''OGS'' (Some ''full-desktop.png'') 4)"
  "get_checked net_png (candidate_url ''OGS'' (Some ''full-desktop.png'') 1) = Some ''PNG bytes''"
  unfolding candidate_png
  by (simp_all add: try_head_def get_checked_def net_png_def raise_for_status_def)

lemma png_ext: "file_ext_for_url no_bracketed_hosts
       ''https://cdn.rgpub.io/public/live/map/riftbound/latest/OGS/cards/OGS-001/full-desktop.png'' = Inr ''.png''"
  by code_simp

text \<open>
  C7, at a failing input. The claim says that every file written has the extension inferred
  from the path of the URL fetched, in the fallback prober as in the downloader. The prober
  builds the name with the fixed extension \<open>.jpg\<close>: run with the asset
  \<open>full-desktop.png\<close> on a CDN that has that asset for the card OGS-001, it fetches a URL
  whose inferred extension is \<open>.png\<close> and writes it to \<open>images/OGS/001.jpg\<close>.
\<close>

theorem fallback_png_asset_saved_as_jpg:
  "written (trace (fallback_guess_by_prefixes net_png [''images''] [''OGS''] 1 3
              (Some ''full-desktop.png'') empty_world)) =
     [([''images'', ''OGS'', ''001.jpg''], ''PNG bytes'')]
   \<and> candidate_url ''OGS'' (Some ''full-desktop.png'') 1 =
       ''https://cdn.rgpub.io/public/live/map/riftbound/latest/OGS/cards/OGS-001/full-desktop.png''
   \<and> file_ext_for_url no_bracketed_hosts (candidate_url ''OGS'' (Some ''full-desktop.png'') 1) = Inr ''.png''"
proof -
  have run: "written (trace (fallback_guess_by_prefixes net_png [''images''] [''OGS''] 1 3
              (Some ''full-desktop.png'') empty_world)) =
     [([''images'', ''OGS'', ''001.jpg''], ''PNG bytes'')]"
    by (simp add: fallback_guess_by_prefixes_def scan_prefix_def upto_1_1999 scan_step_miss
          scan_step_saved net_png_facts fmt03d_1 emit_def write_bytes_def trace_mkdir_parents
          pjoin_def Let_def written_def empty_world_def)
  have ext: "file_ext_for_url no_bracketed_hosts (candidate_url ''OGS'' (Some ''full-desktop.png'') 1)
      = Inr ''.png''"
    unfolding candidate_png by (rule png_ext)
  from run candidate_png(1) ext show ?thesis
    by blast
qed

section \<open>Properties of the downloader\<close>

lemma detect_prefix_parses:
  "detect_prefix chk u = Inr d \<Longrightarrow> \<exists>ext. file_ext_for_url chk u = Inr ext"
  by (auto simp: detect_prefix_def file_ext_for_url_def split: sum.splits)

lemma get_checked_None_iff:
  "get_checked net u = None \<longleftrightarrow>
     (http_get net u = GetRequestException
      \<or> (\<exists>status content. http_get net u = GetResponse status content \<and> 400 \<le> status \<and> status < 600))"
  by (auto simp: get_checked_def raise_for_status_def split: get_outcome.splits)

lemma download_one_failed:
  assumes "detect_prefix chk u = Inr detected" and "get_checked net u = None"
  shows "download_one chk net out_dir u s =
     (s\<lparr>dl_world := emit (Get u) (mkdir_parents (pjoin out_dir (prefix_or_misc detected)) (dl_world s))\<rparr>, None)"
  using assms detect_prefix_parses [OF assms(1)]
  by (auto simp: download_one_def Let_def)

lemma download_one_saved:
  assumes "detect_prefix chk u = Inr detected" and "file_ext_for_url chk u = Inr ext"
    and "get_checked net u = Some content"
  shows "download_one chk net out_dir u s =
     (\<lparr>counters = (counters s)(prefix_or_misc detected \<mapsto>
           (case counters s (prefix_or_misc detected) of None \<Rightarrow> 1 | Some n \<Rightarrow> n) + 1),
       dl_world = write_bytes
          (pjoin (pjoin out_dir (prefix_or_misc detected))
             (fmt03d (case counters s (prefix_or_misc detected) of None \<Rightarrow> 1 | Some n \<Rightarrow> n) @ ext))
          content
          (emit (Get u) (mkdir_parents (pjoin out_dir (prefix_or_misc detected)) (dl_world s)))\<rparr>, None)"
  using assms by (simp add: download_one_def Let_def)

lemma written_Nil: "written [] = []"
  by (simp add: written_def)

lemma written_emit_Get: "written (trace (emit (Get u) w)) = written (trace w)"
  by (simp add: written_def emit_def)

lemma written_write_bytes: "written (trace (write_bytes p b w)) = written (trace w) @ [(p, b)]"
  by (simp add: written_def emit_def write_bytes_def)

lemma download_one_contents:
  assumes "detect_prefix chk u = Inr detected"
  shows "snd (download_one chk net out_dir u s) = None
       \<and> map snd (written (trace (dl_world (fst (download_one chk net out_dir u s))))) =
           map snd (written (trace (dl_world s))) @ fetched net u"
proof -
  obtain ext where e: "file_ext_for_url chk u = Inr ext"
    using detect_prefix_parses [OF assms] by blast
  show ?thesis
  proof (cases "get_checked net u")
    case None
    then show ?thesis
      by (simp add: download_one_failed [OF assms None] fetched_def written_emit_Get trace_mkdir_parents)
  next
    case (Some content)
    then show ?thesis
      by (simp add: download_one_saved [OF assms e Some] fetched_def written_emit_Get
            written_write_bytes trace_mkdir_parents)
  qed
qed

lemma download_loop_contents:
  assumes "\<forall>u \<in> set urls. \<exists>d. detect_prefix chk u = Inr d"
  shows "snd (download_loop chk net out_dir urls s) = None
       \<and> map snd (written (trace (dl_world (fst (download_loop chk net out_dir urls s))))) =
           map snd (written (trace (dl_world s))) @ concat (map (fetched net) urls)"
  using assms
proof (induction urls arbitrary: s)
  case Nil
  show ?case by simp
next
  case (Cons u urls)
  then obtain d where d: "detect_prefix chk u = Inr d" by auto
  obtain s' where s': "download_one chk net out_dir u s = (s', None)"
    using download_one_contents [OF d, of net out_dir s]
    by (cases "download_one chk net out_dir u s") auto
  have one: "map snd (written (trace (dl_world s'))) =
           map snd (written (trace (dl_world s))) @ fetched net u"
    using download_one_contents [OF d, of net out_dir s] s' by simp
  from Cons.prems have rest: "\<forall>u \<in> set urls. \<exists>d. detect_prefix chk u = Inr d" by simp
  show ?case
    using Cons.IH [OF rest, of s'] s' one by simp
qed

text \<open>
  C4, as amended. A download fails when \<open>requests.get\<close> raises or when the final status is
  between 400 and 599 (what \<open>raise_for_status\<close> raises on). For such a URL \<open>u\<close>, in a
  batch whose URLs all parse, the iteration leaves the counters and the files as they were
  and writes nothing, the loop goes on with the rest of the batch, the call ends without an
  exception, and the contents written by the whole batch are those of the successful
  downloads before and after \<open>u\<close>, in order.
\<close>

theorem failed_download_skipped_batch_continues:
  assumes "\<forall>v \<in> set (before @ u # rest). \<exists>d. detect_prefix chk v = Inr d"
    and "http_get net u = GetRequestException
         \<or> (\<exists>status content. http_get net u = GetResponse status content
               \<and> 400 \<le> status \<and> status < 600)"
  shows "counters (fst (download_one chk net out_dir u s)) = counters s
       \<and> files (dl_world (fst (download_one chk net out_dir u s))) = files (dl_world s)
       \<and> written (trace (dl_world (fst (download_one chk net out_dir u s)))) =
           written (trace (dl_world s))
       \<and> download_loop chk net out_dir (u # rest) s =
           download_loop chk net out_dir rest (fst (download_one chk net out_dir u s))
       \<and> snd (download_images chk net (before @ u # rest) out_dir w) = None
       \<and> map snd (written (trace (fst (download_images chk net (before @ u # rest) out_dir w)))) =
           map snd (written (trace w))
           @ concat (map (fetched net) before) @ concat (map (fetched net) rest)"
proof -
  from assms(1) obtain d where d: "detect_prefix chk u = Inr d" by auto
  from assms(2) have f: "get_checked net u = None"
    by (simp add: get_checked_None_iff)
  note one = download_one_failed [OF d f, of out_dir s]
  have a: "counters (fst (download_one chk net out_dir u s)) = counters s"
    and b: "files (dl_world (fst (download_one chk net out_dir u s))) = files (dl_world s)"
    and c: "written (trace (dl_world (fst (download_one chk net out_dir u s)))) =
           written (trace (dl_world s))"
    and e: "download_loop chk net out_dir (u # rest) s =
           download_loop chk net out_dir rest (fst (download_one chk net out_dir u s))"
    unfolding one
    by (simp_all add: emit_def files_mkdir_parents trace_mkdir_parents written_def one)
  let ?s0 = "\<lparr>counters = Map.empty, dl_world = mkdir_parents out_dir w\<rparr>"
  note L = download_loop_contents [OF assms(1), of net out_dir ?s0]
  have g: "snd (download_images chk net (before @ u # rest) out_dir w) = None"
    using L by (simp add: download_images_def case_prod_beta del: download_loop.simps)
  have h: "map snd (written (trace (fst (download_images chk net (before @ u # rest) out_dir w)))) =
           map snd (written (trace w))
           @ concat (map (fetched net) before) @ concat (map (fetched net) rest)"
    using L f by (simp add: download_images_def case_prod_beta fetched_def trace_mkdir_parents
          del: download_loop.simps)
  from a b c e g h show ?thesis by blast
qed

lemma example_urls:
  "detect_prefix no_bracketed_hosts ''https://example.com/img/a.jpg'' = Inr None"
  "detect_prefix no_bracketed_hosts ''https://example.com/img/b.png'' = Inr None"
  "detect_prefix no_bracketed_hosts ''https://example.com/img/c.gif'' = Inr None"
  "file_ext_for_url no_bracketed_hosts ''https://example.com/img/a.jpg'' = Inr ''.jpg''"
  "file_ext_for_url no_bracketed_hosts ''https://example.com/img/b.png'' = Inr ''.png''"
  "file_ext_for_url no_bracketed_hosts ''https://example.com/img/c.gif'' = Inr ''.gif''"
  by code_simp+

lemma net_one_missing_facts:
  "http_get net_one_missing ''https://example.com/img/b.png'' = GetResponse 404 ''not found''"
  "get_checked net_one_missing ''https://example.com/img/a.jpg'' = Some ''image at https://example.com/img/a.jpg''"
  "get_checked net_one_missing ''https://example.com/img/b.png'' = None"
  "get_checked net_one_missing ''https://example.com/img/c.gif'' = Some ''image at https://example.com/img/c.gif''"
  by (simp_all add: net_one_missing_def get_checked_def raise_for_status_def)

lemma net_one_missing_run:
  "written (trace (fst (download_images no_bracketed_hosts net_one_missing
       [''https://example.com/img/a.jpg'', ''https://example.com/img/b.png'',
        ''https://example.com/img/c.gif''] [''images''] empty_world))) =
     [([''images'', ''misc'', ''001.jpg''], ''image at https://example.com/img/a.jpg''),
      ([''images'', ''misc'', ''002.gif''], ''image at https://example.com/img/c.gif'')]"
  by (simp add: download_images_def download_one_saved [OF example_urls(1) example_urls(4) net_one_missing_facts(2)]
        download_one_failed [OF example_urls(2) net_one_missing_facts(3)]
        download_one_saved [OF example_urls(3) example_urls(6) net_one_missing_facts(4)]
        prefix_or_misc_def fmt03d_1 fmt03d_2 written_write_bytes written_emit_Get
        trace_mkdir_parents pjoin_def empty_world_def written_Nil)

theorem failed_download_skipped_batch_continues_witness:
  "detect_prefix no_bracketed_hosts ''https://example.com/img/a.jpg'' = Inr None
   \<and> detect_prefix no_bracketed_hosts ''https://example.com/img/b.png'' = Inr None
   \<and> detect_prefix no_bracketed_hosts ''https://example.com/img/c.gif'' = Inr None
   \<and> http_get net_one_missing ''https://example.com/img/b.png'' = GetResponse 404 ''not found''
   \<and> map snd (written (trace (fst (download_images no_bracketed_hosts net_one_missing
        ([''https://example.com/img/a.jpg''] @ ''https://example.com/img/b.png''
           # [''https://example.com/img/c.gif'']) [''images''] empty_world)))) =
       [''image at https://example.com/img/a.jpg'', ''image at https://example.com/img/c.gif'']
   \<and> written (trace (fst (download_images no_bracketed_hosts net_one_missing
        [''https://example.com/img/a.jpg'', ''https://example.com/img/b.png'',
         ''https://example.com/img/c.gif''] [''images''] empty_world))) =
       [([''images'', ''misc'', ''001.jpg''], ''image at https://example.com/img/a.jpg''),
        ([''images'', ''misc'', ''002.gif''], ''image at https://example.com/img/c.gif'')]"
proof -
  have parses: "\<forall>v \<in> set ([''https://example.com/img/a.jpg''] @ ''https://example.com/img/b.png''
                   # [''https://example.com/img/c.gif'']).
       \<exists>d. detect_prefix no_bracketed_hosts v = Inr d"
    using example_urls by simp
  have fails: "http_get net_one_missing ''https://example.com/img/b.png'' = GetRequestException
         \<or> (\<exists>status content. http_get net_one_missing ''https://example.com/img/b.png''
                 = GetResponse status content \<and> 400 \<le> status \<and> status < 600)"
    by (simp add: net_one_missing_def)
  have "map snd (written (trace (fst (download_images no_bracketed_hosts net_one_missing
        ([''https://example.com/img/a.jpg''] @ ''https://example.com/img/b.png''
           # [''https://example.com/img/c.gif'']) [''images''] empty_world)))) =
       map snd (written (trace empty_world))
       @ concat (map (fetched net_one_missing) [''https://example.com/img/a.jpg''])
       @ concat (map (fetched net_one_missing) [''https://example.com/img/c.gif''])"
    using failed_download_skipped_batch_continues [OF parses fails] by blast
  then have contents: "map snd (written (trace (fst (download_images no_bracketed_hosts net_one_missing
        ([''https://example.com/img/a.jpg''] @ ''https://example.com/img/b.png''
           # [''https://example.com/img/c.gif'']) [''images''] empty_world)))) =
       [''image at https://example.com/img/a.jpg'', ''image at https://example.com/img/c.gif'']"
    by (simp add: fetched_def net_one_missing_facts empty_world_def written_def)
  from example_urls(1-3) net_one_missing_facts(1) contents net_one_missing_run show ?thesis
    by blast
qed

text \<open>
  C4 as stated counts every status outside 200 to 299 as a failure. On a server that answers
  304 with an empty body, the downloader writes that body to \<open>images/misc/001.jpg\<close> and
  advances the counter of \<open>misc\<close> to 2.
\<close>

theorem status_304_is_saved:
  "http_get net_304 ''https://example.com/img/a.jpg'' = GetResponse 304 []
   \<and> written (trace (fst (download_images no_bracketed_hosts net_304
        [''https://example.com/img/a.jpg''] [''images''] empty_world))) =
       [([''images'', ''misc'', ''001.jpg''], [])]
   \<and> counters (fst (download_one no_bracketed_hosts net_304 [''images'']
        ''https://example.com/img/a.jpg'' \<lparr>counters = Map.empty, dl_world = empty_world\<rparr>)) ''misc''
       = Some 2"
proof -
  have g: "get_checked net_304 ''https://example.com/img/a.jpg'' = Some []"
    by (simp add: net_304_def get_checked_def raise_for_status_def)
  note one = download_one_saved [OF example_urls(1) example_urls(4) g]
  have r: "http_get net_304 ''https://example.com/img/a.jpg'' = GetResponse 304 []"
    by (simp add: net_304_def)
  show ?thesis
    by (simp add: r download_images_def one prefix_or_misc_def fmt03d_1 written_write_bytes
          written_emit_Get trace_mkdir_parents pjoin_def empty_world_def written_Nil)
qed

text \<open>
  C5. Given two URLs that \<open>detect_prefix\<close> maps to \<open>OGS\<close> and then one that it maps to
  nothing, all three downloads succeeding, the downloader writes \<open>001\<close> and \<open>002\<close> under
  \<open>out_dir/OGS\<close> and \<open>001\<close> under \<open>out_dir/misc\<close>, in that order, each name ending with
  the extension inferred from its URL: \<open>001.jpg\<close>, \<open>002.jpg\<close> and \<open>misc/001.jpg\<close> for URLs
  whose paths end in \<open>.jpg\<close>.
\<close>

theorem two_OGS_then_misc:
  assumes "detect_prefix chk u1 = Inr (Some ''OGS'')"
    and "detect_prefix chk u2 = Inr (Some ''OGS'')"
    and "detect_prefix chk u3 = Inr None"
    and "file_ext_for_url chk u1 = Inr ext1"
    and "file_ext_for_url chk u2 = Inr ext2"
    and "file_ext_for_url chk u3 = Inr ext3"
    and "get_checked net u1 = Some b1"
    and "get_checked net u2 = Some b2"
    and "get_checked net u3 = Some b3"
  shows "snd (download_images chk net [u1, u2, u3] out_dir w) = None
       \<and> trace (fst (download_images chk net [u1, u2, u3] out_dir w)) =
           trace w @
           [Get u1, Write (out_dir @ [''OGS'', ''001'' @ ext1]) b1,
            Get u2, Write (out_dir @ [''OGS'', ''002'' @ ext2]) b2,
            Get u3, Write (out_dir @ [''misc'', ''001'' @ ext3]) b3]
       \<and> files (fst (download_images chk net [u1, u2, u3] out_dir w)) =
           (files w)(out_dir @ [''OGS'', ''001'' @ ext1] \<mapsto> b1,
                     out_dir @ [''OGS'', ''002'' @ ext2] \<mapsto> b2,
                     out_dir @ [''misc'', ''001'' @ ext3] \<mapsto> b3)"
  by (simp add: download_images_def
        download_one_saved [OF assms(1) assms(4) assms(7)]
        download_one_saved [OF assms(2) assms(5) assms(8)]
        download_one_saved [OF assms(3) assms(6) assms(9)]
        prefix_or_misc_def fmt03d_1 fmt03d_2 write_bytes_def emit_def
        trace_mkdir_parents files_mkdir_parents pjoin_def)

lemma cdn_urls:
  "detect_prefix no_bracketed_hosts
     ''https://cdn.rgpub.io/public/live/map/riftbound/latest/OGS/cards/OGS-001/full-desktop.jpg''
     = Inr (Some ''OGS'')"
  "detect_prefix no_bracketed_hosts
     ''https://cdn.rgpub.io/public/live/map/riftbound/latest/OGS/cards/OGS-002/full-desktop.jpg''
     = Inr (Some ''OGS'')"
  "file_ext_for_url no_bracketed_hosts
     ''https://cdn.rgpub.io/public/live/map/riftbound/latest/OGS/cards/OGS-001/full-desktop.jpg''
     = Inr ''.jpg''"
  "file_ext_for_url no_bracketed_hosts
     ''https://cdn.rgpub.io/public/live/map/riftbound/latest/OGS/cards/OGS-002/full-desktop.jpg''
     = Inr ''.jpg''"
  by code_simp+

theorem two_OGS_then_misc_witness:
  "detect_prefix no_bracketed_hosts
     ''https://cdn.rgpub.io/public/live/map/riftbound/latest/OGS/cards/OGS-001/full-desktop.jpg''
     = Inr (Some ''OGS'')
   \<and> detect_prefix no_bracketed_hosts
     ''https://cdn.rgpub.io/public/live/map/riftbound/latest/OGS/cards/OGS-002/full-desktop.jpg''
     = Inr (Some ''OGS'')
   \<and> detect_prefix no_bracketed_hosts ''https://example.com/img/a.jpg'' = Inr None
   \<and> written (trace (fst (download_images no_bracketed_hosts net_one_missing
        [''https://cdn.rgpub.io/public/live/map/riftbound/latest/OGS/cards/OGS-001/full-desktop.jpg'',
         ''https://cdn.rgpub.io/public/live/map/riftbound/latest/OGS/cards/OGS-002/full-desktop.jpg'',
         ''https://example.com/img/a.jpg''] [''images''] empty_world))) =
       [([''images'', ''OGS'', ''001.jpg''],
         ''image at https://cdn.rgpub.io/public/live/map/riftbound/latest/OGS/cards/OGS-001/full-desktop.jpg''),
        ([''images'', ''OGS'', ''002.jpg''],
         ''image at https://cdn.rgpub.io/public/live/map/riftbound/latest/OGS/cards/OGS-002/full-desktop.jpg''),
        ([''images'', ''misc'', ''001.jpg''], ''image at https://example.com/img/a.jpg'')]"
proof -
  let ?u1 = "''https://cdn.rgpub.io/public/live/map/riftbound/latest/OGS/cards/OGS-001/full-desktop.jpg''"
  let ?u2 = "''https://cdn.rgpub.io/public/live/map/riftbound/latest/OGS/cards/OGS-002/full-desktop.jpg''"
  let ?u3 = "''https://example.com/img/a.jpg''"
  have g1: "get_checked net_one_missing ?u1 = Some (''image at '' @ ?u1)"
    and g2: "get_checked net_one_missing ?u2 = Some (''image at '' @ ?u2)"
    and g3: "get_checked net_one_missing ?u3 = Some (''image at '' @ ?u3)"
    by (simp_all add: net_one_missing_def get_checked_def raise_for_status_def)
  have "trace (fst (download_images no_bracketed_hosts net_one_missing [?u1, ?u2, ?u3]
                [''images''] empty_world)) =
        trace empty_world @
           [Get ?u1, Write ([''images''] @ [''OGS'', ''001'' @ ''.jpg'']) (''image at '' @ ?u1),
            Get ?u2, Write ([''images''] @ [''OGS'', ''002'' @ ''.jpg'']) (''image at '' @ ?u2),
            Get ?u3, Write ([''images''] @ [''misc'', ''001'' @ ''.jpg'']) (''image at '' @ ?u3)]"
    using two_OGS_then_misc [OF cdn_urls(1) cdn_urls(2) example_urls(1) cdn_urls(3) cdn_urls(4)
            example_urls(4) g1 g2 g3]
    by blast
  then have "written (trace (fst (download_images no_bracketed_hosts net_one_missing [?u1, ?u2, ?u3]
                [''images''] empty_world))) =
       [([''images'', ''OGS'', ''001.jpg''], ''image at '' @ ?u1),
        ([''images'', ''OGS'', ''002.jpg''], ''image at '' @ ?u2),
        ([''images'', ''misc'', ''001.jpg''], ''image at '' @ ?u3)]"
    by (simp add: written_def empty_world_def)
  with cdn_urls(1) cdn_urls(2) example_urls(1) show ?thesis
    by simp
qed

section \<open>Properties of the srcset parser\<close>

lemma py_split_hd: "py_split sep s = takeWhile (\<lambda>c. c \<noteq> sep) s # tl (py_split sep s)"
  by (induction s) (auto split: list.splits)

lemma py_split_nonempty: "py_split sep s \<noteq> []"
  by (induction s) (auto split: list.splits)

lemma srcset_url_eq: "srcset_url part = first_space_token part"
proof (cases "py_split CHR '' '' (py_strip part)")
  case Nil
  then show ?thesis by (simp add: py_split_nonempty)
next
  case (Cons t ts)
  with py_split_hd [of "CHR '' ''" "py_strip part"]
  have "t = takeWhile (\<lambda>c. c \<noteq> CHR '' '') (py_strip part)" by simp
  with Cons show ?thesis
    by (simp add: srcset_url_def first_space_token_def)
qed

lemma srcset_loop_eq:
  "srcset_loop parts urls = urls @ filter (\<lambda>u. u \<noteq> []) (map first_space_token parts)"
  by (induction parts arbitrary: urls) (simp_all add: Let_def srcset_url_eq)

lemma isspace_space: "py_isspace CHR '' ''"
  by (simp add: py_isspace_def)

lemma dropWhile_none: "\<forall>c \<in> set t. \<not> P c \<Longrightarrow> dropWhile P t = t"
  by (cases t) auto

lemma strip_no_space: "\<forall>c \<in> set t. \<not> py_isspace c \<Longrightarrow> py_strip t = t"
  by (simp add: py_strip_def lstrip_where_def rstrip_where_def dropWhile_none)

lemma takeWhile_rstrip:
  assumes "\<forall>c \<in> set q. P c \<longleftrightarrow> c = x"
  shows "takeWhile (\<lambda>c. c \<noteq> x) (rev (dropWhile P (rev q))) = takeWhile (\<lambda>c. c \<noteq> x) q"
  using assms
proof (induction q rule: rev_induct)
  case Nil
  show ?case by simp
next
  case (snoc y q)
  show ?case
  proof (cases "P y")
    case True
    with snoc.prems have y: "y = x" by simp
    from snoc.prems have "\<forall>c \<in> set q. P c \<longleftrightarrow> c = x" by simp
    from snoc.IH [OF this] True y show ?thesis
      by (simp add: takeWhile_append)
  next
    case False
    then show ?thesis by simp
  qed
qed

lemma first_space_token_eq:
  assumes "\<forall>c \<in> set part. py_isspace c \<longrightarrow> c = CHR '' ''"
  shows "first_space_token part = first_whitespace_token part"
proof -
  let ?q = "dropWhile py_isspace part"
  have sp: "\<forall>c \<in> set part. py_isspace c \<longleftrightarrow> c = CHR '' ''"
    using assms isspace_space by auto
  have q: "\<forall>c \<in> set ?q. py_isspace c \<longleftrightarrow> c = CHR '' ''"
    using sp set_dropWhileD by fastforce
  have tw: "takeWhile (\<lambda>c. c \<noteq> CHR '' '') (py_strip part) = takeWhile (\<lambda>c. c \<noteq> CHR '' '') ?q"
    unfolding py_strip_def lstrip_where_def rstrip_where_def
    by (rule takeWhile_rstrip [OF q])
  have same: "takeWhile (\<lambda>c. c \<noteq> CHR '' '') ?q = takeWhile (\<lambda>c. \<not> py_isspace c) ?q"
    using q by (intro takeWhile_cong) auto
  have clean: "\<forall>c \<in> set (takeWhile (\<lambda>c. \<not> py_isspace c) ?q). \<not> py_isspace c"
    using set_takeWhileD by fastforce
  show ?thesis
    unfolding first_space_token_def first_whitespace_token_def tw same
    by (rule strip_no_space [OF clean])
qed

lemma set_py_split: "p \<in> set (py_split sep s) \<Longrightarrow> set p \<subseteq> set s"
proof (induction s arbitrary: p)
  case Nil
  then show ?case by simp
next
  case (Cons c cs)
  show ?case
  proof (cases "c = sep")
    case True
    with Cons.prems have "p = [] \<or> p \<in> set (py_split sep cs)" by simp
    with Cons.IH show ?thesis by auto
  next
    case False
    obtain q qs where split: "py_split sep cs = q # qs"
      using py_split_nonempty [of sep cs] by (cases "py_split sep cs") auto
    with False Cons.prems have "p = c # q \<or> p \<in> set qs" by simp
    moreover have "set q \<subseteq> set cs" using Cons.IH [of q] split by simp
    moreover have "p \<in> set qs \<Longrightarrow> set p \<subseteq> set cs" using Cons.IH [of p] split by simp
    ultimately show ?thesis by auto
  qed
qed

text \<open>
  C8, as amended. \<open>"a.jpg 1x, b.jpg 2x"\<close> parses to \<open>a.jpg\<close> and \<open>b.jpg\<close> in that order,
  and an image tag with that srcset contributes the two URLs resolved against the base URL.
  In general each comma-separated entry is stripped, cut at its first space character
  (U+0020) and stripped again, and contributes the result unless it is empty. When the
  only whitespace in the attribute is the space character, that is the first
  whitespace-delimited token of each entry.
\<close>

theorem parse_srcset_first_space_token:
  "parse_srcset ''a.jpg 1x, b.jpg 2x'' = [''a.jpg'', ''b.jpg'']
   \<and> collect_urls bracket_ok [\<lparr>tag_name = ''img'', tag_attrs = [(''srcset'', ''a.jpg 1x, b.jpg 2x'')]\<rparr>] [] URL =
       Inr [''https://riftbound.leagueoflegends.com/en-us/tcg-cards/a.jpg'',
            ''https://riftbound.leagueoflegends.com/en-us/tcg-cards/b.jpg'']
   \<and> parse_srcset srcset =
       filter (\<lambda>u. u \<noteq> [])
         (map (\<lambda>part. py_strip (takeWhile (\<lambda>c. c \<noteq> CHR '' '') (py_strip part)))
            (py_split CHR '','' srcset))
   \<and> ((\<forall>c \<in> set srcset. py_isspace c \<longrightarrow> c = CHR '' '')
        \<longrightarrow> parse_srcset srcset = srcset_first_tokens srcset)"
proof (intro conjI impI)
  show "parse_srcset ''a.jpg 1x, b.jpg 2x'' = [''a.jpg'', ''b.jpg'']"
    by code_simp
  show "collect_urls bracket_ok [\<lparr>tag_name = ''img'', tag_attrs = [(''srcset'', ''a.jpg 1x, b.jpg 2x'')]\<rparr>] [] URL =
       Inr [''https://riftbound.leagueoflegends.com/en-us/tcg-cards/a.jpg'',
            ''https://riftbound.leagueoflegends.com/en-us/tcg-cards/b.jpg'']"
    by code_simp
  show gen: "parse_srcset srcset =
       filter (\<lambda>u. u \<noteq> [])
         (map (\<lambda>part. py_strip (takeWhile (\<lambda>c. c \<noteq> CHR '' '') (py_strip part)))
            (py_split CHR '','' srcset))"
    by (simp add: parse_srcset_def srcset_loop_eq first_space_token_def [abs_def])
  assume only: "\<forall>c \<in> set srcset. py_isspace c \<longrightarrow> c = CHR '' ''"
  have "map first_space_token (py_split CHR '','' srcset) =
        map first_whitespace_token (py_split CHR '','' srcset)"
  proof (rule map_cong [OF refl])
    fix part assume "part \<in> set (py_split CHR '','' srcset)"
    with set_py_split have "set part \<subseteq> set srcset" by blast
    with only have "\<forall>c \<in> set part. py_isspace c \<longrightarrow> c = CHR '' ''" by blast
    then show "first_space_token part = first_whitespace_token part"
      by (rule first_space_token_eq)
  qed
  then have "filter (\<lambda>u. u \<noteq> []) (map first_space_token (py_split CHR '','' srcset)) =
        filter (\<lambda>u. u \<noteq> []) (map first_whitespace_token (py_split CHR '','' srcset))"
    by (rule arg_cong)
  then show "parse_srcset srcset = srcset_first_tokens srcset"
    unfolding parse_srcset_def srcset_loop_eq srcset_first_tokens_def by simp
qed

theorem parse_srcset_first_space_token_witness:
  "parse_srcset ''a.jpg 320w, b.jpg 640w'' = srcset_first_tokens ''a.jpg 320w, b.jpg 640w''
   \<and> parse_srcset ''a.jpg 320w, b.jpg 640w'' = [''a.jpg'', ''b.jpg'']"
proof -
  have only: "\<forall>c \<in> set ''a.jpg 320w, b.jpg 640w''. py_isspace c \<longrightarrow> c = CHR '' ''"
    by (simp add: py_isspace_def)
  have "parse_srcset ''a.jpg 320w, b.jpg 640w'' = srcset_first_tokens ''a.jpg 320w, b.jpg 640w''"
    using parse_srcset_first_space_token [of no_bracketed_hosts "''a.jpg 320w, b.jpg 640w''"] only
    by blast
  moreover have "srcset_first_tokens ''a.jpg 320w, b.jpg 640w'' = [''a.jpg'', ''b.jpg'']"
    by code_simp
  ultimately show ?thesis by simp
qed

text \<open>
  C8 as stated fails on a descriptor separated by a tab: the entry \<open>a.jpg<TAB>1x\<close> is kept
  whole, descriptor included, where the first whitespace-delimited token is \<open>a.jpg\<close>.
\<close>

theorem srcset_tab_descriptor_kept:
  "parse_srcset (''a.jpg'' @ [CHR 0x09] @ ''1x'') = [''a.jpg'' @ [CHR 0x09] @ ''1x'']
   \<and> srcset_first_tokens (''a.jpg'' @ [CHR 0x09] @ ''1x'') = [''a.jpg'']"
  by code_simp

section \<open>Properties of the URL extractor\<close>

lemma try_filter_Inr:
  "try_filter f xs = Inr ys \<Longrightarrow>
   ys = filter (\<lambda>x. f x = Inr True) xs \<and> (\<forall>x \<in> set xs. \<exists>b. f x = Inr b)"
proof (induction xs arbitrary: ys)
  case Nil
  then show ?case by simp
next
  case (Cons x xs)
  then show ?case
    by (auto split: sum.splits if_splits)
qed


lemma has_image_ext_True:
  "has_image_ext chk u = Inr True \<Longrightarrow>
   \<exists>parsed. urlparse chk u [] = Inr parsed
      \<and> (\<exists>ext \<in> set image_exts. endswith (py_lower (pr_path parsed)) ext)"
  by (auto simp: has_image_ext_def list_ex_iff split: sum.splits)

text \<open>
  C3. Whenever the extractor returns a list, every URL in it parses, and the lower-cased
  path of the parsed URL ends with one of \<open>.png\<close>, \<open>.jpg\<close>, \<open>.jpeg\<close>, \<open>.webp\<close>, \<open>.gif\<close>.
\<close>

theorem extracted_urls_have_image_extension:
  assumes "extract_image_urls chk soup html base_url = Inr result"
  shows "\<forall>u \<in> set result.
           \<exists>parsed. urlparse chk u [] = Inr parsed
             \<and> (\<exists>ext \<in> set [''.png'', ''.jpg'', ''.jpeg'', ''.webp'', ''.gif''].
                   endswith (py_lower (pr_path parsed)) ext)"
proof -
  from assms obtain deduped where "try_filter (has_image_ext chk) deduped = Inr result"
    by (auto simp: extract_image_urls_def split: sum.splits)
  from try_filter_Inr [OF this] have "\<forall>u \<in> set result. has_image_ext chk u = Inr True"
    by simp
  then show ?thesis
    using has_image_ext_True by (simp add: image_exts_def)
qed




text \<open>The definitions that evaluating a URL on a concrete input unfolds.\<close>

lemmas char_defs = lower_char_def py_isspace_def ascii_alpha_def ascii_digit_def scheme_char_def
  c0_or_space_def unsafe_url_byte_def netloc_delim_def word_char_def ascii_upper_def

lemmas url_defs = urljoin_def urlparse_def urlsplit_def urlunparse_def urlunsplit_def
  split_scheme_def splitnetloc_def split_fragment_query_def splitparams_def split_once_def
  find_char_def rfind_char_def bracketed_host_def join_paths_def filter_middle_def
  lstrip_where_def rstrip_where_def py_lower_def uses_relative_def uses_netloc_def uses_params_def
  normalize_def has_image_ext_def image_exts_def endswith_def Let_def

lemma cdn_pattern_shape:
  "\<exists>r1 r2. cdn_img_pattern = Seq (Seq (Chr (\<lambda>x. lower_char x = lower_char CHR ''h'')) r1) r2"
  by (simp add: cdn_img_pattern_def seqs_def lit_i_def)

lemma cdn_pattern_needs_h:
  assumes "lower_char c \<noteq> CHR ''h''"
  shows "rx_match cdn_img_pattern (c # cs) g = []"
proof -
  have h: "lower_char CHR ''h'' = CHR ''h''" by (simp add: lower_char_def)
  from cdn_pattern_shape
  have "\<exists>r1 r2. cdn_img_pattern = Seq (Seq (Chr (\<lambda>x. lower_char x = lower_char CHR ''h'')) r1) r2" .
  then obtain r1 r2 where eq: "cdn_img_pattern = Seq (Seq (Chr (\<lambda>x. lower_char x = CHR ''h'')) r1) r2"
    using h by auto
  show ?thesis unfolding eq using assms by simp
qed

lemma cdn_finditer_no_h:
  "\<forall>c \<in> set s. lower_char c \<noteq> CHR ''h'' \<Longrightarrow> rx_finditer cdn_img_pattern s = []"
  by (induction s) (simp_all add: cdn_pattern_needs_h)

lemma char_of_upper:
  "char_of (106 :: nat) = CHR ''j''"
  "char_of (112 :: nat) = CHR ''p''"
  "char_of (103 :: nat) = CHR ''g''"
  by code_simp+

lemma sample_html_no_cdn: "rx_finditer cdn_img_pattern sample_html = []"
  by (rule cdn_finditer_no_h) (simp add: sample_html_def lower_char_def char_of_upper)

lemma sample_refs:
  "collect_refs sample_soup =
     [''/img/card.png?v=1'', ''/img/card.png?v=2'', ''//cdn.example.com/a.JPG'', ''notes.txt'']"
  by (simp add: collect_refs_def sample_soup_def find_all_def find_all_style_def img_refs_def
        source_refs_def attr_value_def tag_get_def)

lemma sample_joins:
  "urljoin no_bracketed_hosts URL ''/img/card.png?v=1'' = Inr ''https://riftbound.leagueoflegends.com/img/card.png?v=1''"
  "urljoin no_bracketed_hosts URL ''/img/card.png?v=2'' = Inr ''https://riftbound.leagueoflegends.com/img/card.png?v=2''"
  "urljoin no_bracketed_hosts URL ''//cdn.example.com/a.JPG'' = Inr ''https://cdn.example.com/a.JPG''"
  "urljoin no_bracketed_hosts URL ''notes.txt'' = Inr ''https://riftbound.leagueoflegends.com/en-us/tcg-cards/notes.txt''"
  by (simp_all add: char_defs url_defs URL_def)

lemma sample_keys:
  "normalize no_bracketed_hosts ''https://riftbound.leagueoflegends.com/img/card.png?v=1'' = Inr ''https://riftbound.leagueoflegends.com/img/card.png''"
  "normalize no_bracketed_hosts ''https://riftbound.leagueoflegends.com/img/card.png?v=2'' = Inr ''https://riftbound.leagueoflegends.com/img/card.png''"
  "normalize no_bracketed_hosts ''https://cdn.example.com/a.JPG'' = Inr ''https://cdn.example.com/a.JPG''"
  "normalize no_bracketed_hosts ''https://riftbound.leagueoflegends.com/en-us/tcg-cards/notes.txt'' = Inr ''https://riftbound.leagueoflegends.com/en-us/tcg-cards/notes.txt''"
  by (simp_all add: char_defs url_defs)

lemma sample_exts:
  "has_image_ext no_bracketed_hosts ''https://riftbound.leagueoflegends.com/img/card.png?v=1'' = Inr True"
  "has_image_ext no_bracketed_hosts ''https://cdn.example.com/a.JPG'' = Inr True"
  "has_image_ext no_bracketed_hosts ''https://riftbound.leagueoflegends.com/en-us/tcg-cards/notes.txt'' = Inr False"
  by (simp_all add: char_defs url_defs char_of_upper)

lemma sample_collect:
  "collect_urls no_bracketed_hosts sample_soup sample_html URL =
     Inr [''https://riftbound.leagueoflegends.com/img/card.png?v=1'',
          ''https://riftbound.leagueoflegends.com/img/card.png?v=2'',
          ''https://cdn.example.com/a.JPG'',
          ''https://riftbound.leagueoflegends.com/en-us/tcg-cards/notes.txt'']"
  by (simp add: collect_urls_def sample_refs sample_joins sample_html_no_cdn)

lemma sample_extract:
  "extract_image_urls no_bracketed_hosts sample_soup sample_html URL =
     Inr [''https://riftbound.leagueoflegends.com/img/card.png?v=1'',
          ''https://cdn.example.com/a.JPG'']"
  by (simp add: extract_image_urls_def sample_collect upgrade_protocol_relative_def startswith_def
        sample_keys sample_exts)










theorem extracted_urls_have_image_extension_witness:
  "extract_image_urls no_bracketed_hosts sample_soup sample_html URL =
     Inr [''https://riftbound.leagueoflegends.com/img/card.png?v=1'',
          ''https://cdn.example.com/a.JPG'']
   \<and> (\<exists>parsed. urlparse no_bracketed_hosts ''https://cdn.example.com/a.JPG'' [] = Inr parsed
         \<and> (\<exists>ext \<in> set [''.png'', ''.jpg'', ''.jpeg'', ''.webp'', ''.gif''].
               endswith (py_lower (pr_path parsed)) ext))"
  using extracted_urls_have_image_extension [OF sample_extract] sample_extract
  by simp





end
